theory Spec2Isabelle
  imports Main
begin

section \<open>Graph model (types of the workflow store)\<close>

text \<open>
  The engine lives in \<^verbatim>\<open>src/store/workflowStore.ts\<close>. Node identifiers, handle
  names, images (data URLs) and texts are JavaScript strings. A field that is
  \<^verbatim>\<open>null\<close> or absent is \<open>None\<close>; the engine only ever tests such fields for
  truthiness, so the two are not told apart. What the engine neither reads nor
  writes during a run is left out: positions and sizes, titles and comments, the
  shapes of an annotation, the seed, and the sampling temperature and token limit
  that a text-generate node forwards unchanged to its service.
\<close>

type_synonym node_id = string

datatype node_type =
  ImageInput | Annotation | Prompt | NanoBanana | StyleTransfer | LlmGenerate | SplitGrid | Output

datatype node_status = Idle | Loading | Complete | Error

text \<open>JavaScript truthiness of a \<^verbatim>\<open>string | null | undefined\<close> value.\<close>

definition truthy :: "string option \<Rightarrow> bool" where
  "truthy v = (case v of None \<Rightarrow> False | Some s \<Rightarrow> s \<noteq> [])"

record history_item =
  item_id :: string
  item_timestamp :: nat
  item_prompt :: string
  item_aspectRatio :: "string option"
  item_model :: "string option"

record global_item =
  g_image :: string
  g_timestamp :: nat
  g_prompt :: string
  g_aspectRatio :: "string option"
  g_model :: "string option"
  g_id :: string

record child_set =
  imageInput :: node_id
  promptChild :: node_id
  nanoBananaChild :: node_id

text \<open>
  \<^verbatim>\<open>node.data\<close> is a union of per-kind objects which \<^verbatim>\<open>updateNodeData\<close> merges
  field by field, whatever the kind. It is one flat record of the fields the engine
  reads or writes; \<open>nodeImage\<close> is the field \<^verbatim>\<open>image\<close>.
\<close>

record node_data =
  nodeImage :: "string option"
  filename :: "string option"
  dimensions :: "(nat \<times> nat) option"
  sourceImage :: "string option"
  outputImage :: "string option"
  prompt :: "string option"
  inputImages :: "string list"
  inputPrompt :: "string option"
  outputText :: "string option"
  aspectRatio :: "string option"
  resolution :: "string option"
  model :: "string option"
  useGoogleSearch :: bool
  provider :: "string option"
  status :: "node_status option"
  error :: "string option"
  imageHistory :: "history_item list"
  selectedHistoryIndex :: "nat option"
  childNodeIds :: "child_set list"
  gridRows :: "nat option"
  gridCols :: "nat option"
  isConfigured :: bool

record node =
  node_id :: node_id
  node_type :: node_type
  data :: node_data
  groupId :: "string option"

record edge =
  source :: node_id
  sourceHandle :: "string option"
  target :: node_id
  targetHandle :: "string option"
  hasPause :: bool

record node_group =
  group_name :: string
  locked :: bool

text \<open>
  Every request sent to an external service is appended to the ghost field \<open>calls\<close>
  of the store, so that "no service call is made" can be stated.
\<close>

record generate_request =
  req_images :: "string list"
  req_prompt :: string
  req_aspectRatio :: "string option"
  req_resolution :: "string option"
  req_model :: "string option"
  req_useGoogleSearch :: bool

record llm_request =
  llm_prompt :: string
  llm_images :: "string list option"
  llm_provider :: "string option"
  llm_model :: "string option"

datatype api_call =
    GenerateCall generate_request
  | LlmCall llm_request
  | SaveGenerationCall string string string string

record 'c store =
  nodes :: "node list"
  edges :: "edge list"
  groups :: "string \<rightharpoonup> node_group"
  isRunning :: bool
  currentNodeId :: "node_id option"
  pausedAtNodeId :: "node_id option"
  globalImageHistory :: "global_item list"
  incurredCost :: 'c
  hasUnsavedChanges :: bool
  generationsPath :: "string option"
  calls :: "api_call list"

section \<open>Store operations\<close>

text \<open>\<^verbatim>\<open>updateNodeData(nodeId, patch)\<close>: the patch is the record update it performs.\<close>

definition updateNodeData ::
  "node_id \<Rightarrow> (node_data \<Rightarrow> node_data) \<Rightarrow> 'c store \<Rightarrow> 'c store" where
  "updateNodeData nodeId patch st =
     st\<lparr>nodes := map (\<lambda>n. if node_id n = nodeId then n\<lparr>data := patch (data n)\<rparr> else n) (nodes st),
        hasUnsavedChanges := True\<rparr>"

definition getNodeById :: "'c store \<Rightarrow> node_id \<Rightarrow> node option" where
  "getNodeById st i = find (\<lambda>n. node_id n = i) (nodes st)"

text \<open>\<^verbatim>\<open>addIncurredCost\<close> also mirrors the total into the browser's local storage, which
  the engine never reads back during a run. The cost is a JavaScript number; the model
  asks of its type only that it has an addition, and adds in the order the code does.\<close>

definition addIncurredCost :: "'c::plus \<Rightarrow> 'c store \<Rightarrow> 'c store" where
  "addIncurredCost cost st = st\<lparr>incurredCost := incurredCost st + cost\<rparr>"

definition stopWorkflow :: "'c store \<Rightarrow> 'c store" where
  "stopWorkflow st = st\<lparr>isRunning := False, currentNodeId := None\<rparr>"

section \<open>Input resolver: \<^verbatim>\<open>getConnectedInputs\<close>\<close>

record connected_inputs =
  images :: "string list"
  textInput :: "string option"

definition pushImage :: "string option \<Rightarrow> connected_inputs \<Rightarrow> connected_inputs" where
  "pushImage img acc =
     (case img of
        None \<Rightarrow> acc
      | Some s \<Rightarrow> if s \<noteq> [] then acc\<lparr>images := images acc @ [s]\<rparr> else acc)"

text \<open>The body of the \<^verbatim>\<open>forEach\<close> over the edges that target the node.\<close>

definition collectEdge :: "node list \<Rightarrow> edge \<Rightarrow> connected_inputs \<Rightarrow> connected_inputs" where
  "collectEdge ns e acc =
     (case find (\<lambda>n. node_id n = source e) ns of
        None \<Rightarrow> acc
      | Some sourceNode \<Rightarrow>
          let handleId = targetHandle e;
              acc1 =
                (if handleId = Some ''image'' \<or> \<not> truthy handleId then
                   (if node_type sourceNode = ImageInput then
                      pushImage (nodeImage (data sourceNode)) acc
                    else if node_type sourceNode = Annotation then
                      pushImage (outputImage (data sourceNode)) acc
                    else if node_type sourceNode = NanoBanana then
                      pushImage (outputImage (data sourceNode)) acc
                    else acc)
                 else acc)
          in if handleId = Some ''text'' then
               (if node_type sourceNode = Prompt then
                  acc1\<lparr>textInput := prompt (data sourceNode)\<rparr>
                else if node_type sourceNode = LlmGenerate then
                  acc1\<lparr>textInput := outputText (data sourceNode)\<rparr>
                else acc1)
             else acc1)"

definition getConnectedInputs :: "'c store \<Rightarrow> node_id \<Rightarrow> connected_inputs" where
  "getConnectedInputs st nodeId =
     foldl (\<lambda>acc e. collectEdge (nodes st) e acc)
       \<lparr>images = [], textInput = None\<rparr>
       (filter (\<lambda>e. target e = nodeId) (edges st))"

section \<open>Topological sort of \<^verbatim>\<open>executeWorkflow\<close>\<close>

datatype exn = CycleDetected

record sort_state =
  sorted :: "node list"
  visited :: "node_id set"
  visiting :: "node_id set"

definition incoming :: "edge list \<Rightarrow> node_id \<Rightarrow> edge list" where
  "incoming es nodeId = filter (\<lambda>e. target e = nodeId) es"

text \<open>The end of \<^verbatim>\<open>visit\<close>: the node leaves \<^verbatim>\<open>visiting\<close>, enters \<^verbatim>\<open>visited\<close> and, if
  \<^verbatim>\<open>nodes.find\<close> knows it, is pushed onto \<^verbatim>\<open>sorted\<close>.\<close>

definition markDone :: "node list \<Rightarrow> node_id \<Rightarrow> sort_state \<Rightarrow> sort_state" where
  "markDone ns nodeId st =
     (let st' = st\<lparr>visiting := visiting st - {nodeId}, visited := insert nodeId (visited st)\<rparr>
      in case find (\<lambda>n. node_id n = nodeId) ns of
           None \<Rightarrow> st'
         | Some n \<Rightarrow> st'\<lparr>sorted := sorted st' @ [n]\<rparr>)"

text \<open>
  \<^verbatim>\<open>visit\<close> and the \<^verbatim>\<open>forEach\<close> inside it; the three mutable collections are
  threaded through, a \<^verbatim>\<open>throw\<close> is \<open>Inl\<close>.
\<close>

function (sequential) visit :: "edge list \<Rightarrow> node list \<Rightarrow> node_id \<Rightarrow> sort_state \<Rightarrow> exn + sort_state"
  and visitEach :: "edge list \<Rightarrow> node list \<Rightarrow> edge list \<Rightarrow> sort_state \<Rightarrow> exn + sort_state"
where
  "visit es ns nodeId st =
     (if nodeId \<in> visited st then Inr st
      else if nodeId \<in> visiting st then Inl CycleDetected
      else
        (case visitEach es ns (incoming es nodeId) (st\<lparr>visiting := insert nodeId (visiting st)\<rparr>) of
           Inl x \<Rightarrow> Inl x
         | Inr st' \<Rightarrow> Inr (markDone ns nodeId st')))"
| "visitEach es ns [] st = Inr st"
| "visitEach es ns (e # rest) st =
     (case visit es ns (source e) st of
        Inl x \<Rightarrow> Inl x
      | Inr st' \<Rightarrow> visitEach es ns rest st')"
  by pat_completeness auto

termination
proof (relation "inv_image (less_than <*lex*> less_than) (\<lambda>x. case x of
      Inl (es, ns, nodeId, st) \<Rightarrow> (2 * card (target ` set es - visiting st) + 2, 0)
    | Inr (es, ns, rest, st) \<Rightarrow>
        (2 * card (target ` set es - visiting st) + (if rest = [] then 0 else 3), length rest))",
    goal_cases)
  case 1
  show ?case by (intro wf_inv_image wf_lex_prod wf_less_than)
next
  case (2 es ns nodeId st)
  show ?case
  proof (cases "incoming es nodeId = []")
    case True
    have "card (target ` set es - insert nodeId (visiting st)) \<le> card (target ` set es - visiting st)"
      by (intro card_mono) auto
    with True show ?thesis by simp
  next
    case False
    then have "nodeId \<in> target ` set es"
      by (auto simp: incoming_def filter_empty_conv)
    with 2 have "card (target ` set es - insert nodeId (visiting st))
                  < card (target ` set es - visiting st)"
      by (intro psubset_card_mono) auto
    then show ?thesis by simp
  qed
next
  case (3 es ns e rest st)
  show ?case by simp
next
  case (4 es ns e rest st st')
  have keep:
    "\<And>es ns nodeId st r. visit_visitEach_dom (Inl (es, ns, nodeId, st)) \<Longrightarrow>
        visit es ns nodeId st = Inr r \<Longrightarrow> visiting r = visiting st"
    "\<And>es ns rest st r. visit_visitEach_dom (Inr (es, ns, rest, st)) \<Longrightarrow>
        visitEach es ns rest st = Inr r \<Longrightarrow> visiting r = visiting st"
  proof -
    fix es ns nodeId st r rest
    show "visit_visitEach_dom (Inl (es, ns, nodeId, st)) \<Longrightarrow>
        visit es ns nodeId st = Inr r \<Longrightarrow> visiting r = visiting st"
      and "visit_visitEach_dom (Inr (es, ns, rest, st)) \<Longrightarrow>
        visitEach es ns rest st = Inr r \<Longrightarrow> visiting r = visiting st"
    proof (induction es ns nodeId st and es ns rest st arbitrary: r and r
        rule: visit_visitEach.pinduct)
      case (1 es ns nodeId st)
      show ?case
      proof (cases "nodeId \<in> visited st")
        case True
        with 1 show ?thesis by (simp add: visit.psimps)
      next
        case False
        with 1(1,3) have nv: "nodeId \<notin> visiting st"
          by (auto simp: visit.psimps split: if_splits)
        with False 1(1,3) obtain st' where
          st': "visitEach es ns (incoming es nodeId) (st\<lparr>visiting := insert nodeId (visiting st)\<rparr>) = Inr st'"
          by (auto simp: visit.psimps split: sum.splits)
        from 1(2)[OF False nv st'] have "visiting st' = insert nodeId (visiting st)" by simp
        with 1(1,3) nv False st' show ?thesis
          by (auto simp: visit.psimps markDone_def Let_def split: option.splits)
      qed
    next
      case (2 es ns st)
      then show ?case by (simp add: visitEach.psimps)
    next
      case (3 es ns e rest st)
      from 3(1,4) obtain b where b: "visit es ns (source e) st = Inr b"
        and r: "visitEach es ns rest b = Inr r"
        by (auto simp: visitEach.psimps split: sum.splits)
      from 3(2)[OF b] 3(3)[OF b r] show ?case by simp
    qed
  qed
  from 4 have "visiting st' = visiting st"
    using keep(1) by blast
  then show ?case by simp
qed

text \<open>\<^verbatim>\<open>nodes.forEach((node) => visit(node.id))\<close>, aborted by the first throw.\<close>

fun visitAll :: "edge list \<Rightarrow> node list \<Rightarrow> node list \<Rightarrow> sort_state \<Rightarrow> exn + sort_state" where
  "visitAll es ns [] st = Inr st"
| "visitAll es ns (n # rest) st =
     (case visit es ns (node_id n) st of
        Inl x \<Rightarrow> Inl x
      | Inr st' \<Rightarrow> visitAll es ns rest st')"

definition topoSort :: "edge list \<Rightarrow> node list \<Rightarrow> exn + node list" where
  "topoSort es ns =
     (case visitAll es ns ns \<lparr>sorted = [], visited = {}, visiting = {}\<rparr> of
        Inl x \<Rightarrow> Inl x
      | Inr st \<Rightarrow> Inr (sorted st))"

text \<open>The edges as a relation from source to target, and what a topological order is.\<close>

definition edgeRel :: "edge list \<Rightarrow> (node_id \<times> node_id) set" where
  "edgeRel es = (\<lambda>e. (source e, target e)) ` set es"

definition respectsEdges :: "edge list \<Rightarrow> node list \<Rightarrow> bool" where
  "respectsEdges es order =
     (\<forall>e\<in>set es. \<forall>i<length order. \<forall>j<length order.
        node_id (order ! i) = source e \<and> node_id (order ! j) = target e \<longrightarrow> i < j)"

text \<open>What holds of the three collections whenever \<^verbatim>\<open>visit\<close> is entered or left.\<close>

definition sortInv :: "edge list \<Rightarrow> node list \<Rightarrow> sort_state \<Rightarrow> bool" where
  "sortInv es ns st =
     (visited st \<inter> visiting st = {}
      \<and> (\<forall>e\<in>set es. target e \<in> visited st \<longrightarrow> source e \<in> visited st)
      \<and> (\<forall>x\<in>visited st. (x, x) \<notin> (edgeRel es)\<^sup>+)
      \<and> distinct (map node_id (sorted st))
      \<and> node_id ` set (sorted st) = visited st \<inter> node_id ` set ns
      \<and> set (sorted st) \<subseteq> set ns
      \<and> respectsEdges es (sorted st))"

section \<open>External collaborators\<close>

text \<open>
  What the engine awaits comes from outside: the two generation services, the grid
  splitter (\<^verbatim>\<open>@/utils/gridSplitter\<close>), the browser's image decoder, the clock,
  the pricing function (\<^verbatim>\<open>@/utils/costCalculator\<close>) and the user, who may press
  stop while the run awaits. They are the fields of an environment. A service is
  asked with the number of requests logged so far, so that it may answer the same
  request differently each time. \<open>stopRequested env i\<close> says that \<^verbatim>\<open>stopWorkflow\<close>
  ran after iteration \<open>i - 1\<close> of the run loop and before the check that opens
  iteration \<open>i\<close>. The logger, the toast and the best-effort log upload do not touch
  the store and are left out.
\<close>

datatype thrown = AbortError string | TypeError string | OtherError string | NonError

record http_failure =
  http_status :: nat
  http_statusText :: string
  http_body :: string
  http_parsedError :: "string option option"

datatype 'r http_outcome = Throws thrown | NotOk http_failure | OkJson 'r

record generate_response =
  gen_success :: bool
  gen_image :: "string option"
  gen_error :: "string option"

record llm_response =
  llm_success :: bool
  llm_text :: "string option"
  llm_error :: "string option"

record 'c env =
  generateApi :: "nat \<Rightarrow> generate_request \<Rightarrow> generate_response http_outcome"
  llmApi :: "nat \<Rightarrow> llm_request \<Rightarrow> llm_response http_outcome"
  splitWithDimensions :: "string \<Rightarrow> nat option \<Rightarrow> nat option \<Rightarrow> thrown + string list"
  loadImage :: "string \<Rightarrow> (nat \<times> nat) option"
  dateNow :: "nat \<Rightarrow> nat"
  newGlobalId :: "nat \<Rightarrow> string"
  calculateGenerationCost :: "string option \<Rightarrow> string option \<Rightarrow> 'c"
  stopRequested :: "nat \<Rightarrow> bool"

section \<open>Strings the engine builds\<close>

fun showNat :: "nat \<Rightarrow> string" where
  "showNat n =
     (if n < 10 then [''0123456789'' ! n]
      else showNat (n div 10) @ [''0123456789'' ! (n mod 10)])"

fun includesStr :: "string \<Rightarrow> string \<Rightarrow> bool" where
  "includesStr [] p = (p = [])"
| "includesStr (c # cs) p = (take (length p) (c # cs) = p \<or> includesStr cs p)"

definition orElse :: "string option \<Rightarrow> string \<Rightarrow> string" where
  "orElse v d = (case v of None \<Rightarrow> d | Some s \<Rightarrow> if s \<noteq> [] then s else d)"

text \<open>The message of a failed response: the parsed \<^verbatim>\<open>error\<close> field, else the status line,
  to which the first 200 characters of an unparsable body are appended.\<close>

definition httpErrorMessage :: "string \<Rightarrow> http_failure \<Rightarrow> string" where
  "httpErrorMessage statusLine f =
     (case http_parsedError f of
        Some e \<Rightarrow> orElse e statusLine
      | None \<Rightarrow>
          if http_body f \<noteq> [] then statusLine @ '' - '' @ take 200 (http_body f)
          else statusLine)"

definition generateThrownMessage :: "thrown \<Rightarrow> string" where
  "generateThrownMessage t =
     (case t of
        AbortError m \<Rightarrow> ''Request timed out. Try reducing image sizes or using a simpler prompt.''
      | TypeError m \<Rightarrow>
          if includesStr m ''NetworkError'' then ''Network error. Check your connection and try again.''
          else ''Network error: '' @ m
      | OtherError m \<Rightarrow> m
      | NonError \<Rightarrow> ''Generation failed'')"

definition messageOr :: "thrown \<Rightarrow> string \<Rightarrow> string" where
  "messageOr t d =
     (case t of AbortError m \<Rightarrow> m | TypeError m \<Rightarrow> m | OtherError m \<Rightarrow> m | NonError \<Rightarrow> d)"

text \<open>\<^verbatim>\<open>split-${Math.floor(index / gridCols) + 1}-${(index % gridCols) + 1}.png\<close>, with
  what JavaScript prints when \<^verbatim>\<open>gridCols\<close> is zero or absent.\<close>

definition splitFilename :: "nat \<Rightarrow> nat option \<Rightarrow> string" where
  "splitFilename index cols =
     (case cols of
        None \<Rightarrow> ''split-NaN-NaN.png''
      | Some c \<Rightarrow>
          if c = 0 then (if index = 0 then ''split-NaN-NaN.png'' else ''split-Infinity-NaN.png'')
          else ''split-'' @ showNat (index div c + 1) @ ''-'' @ showNat (index mod c + 1) @ ''.png'')"

section \<open>Node executor\<close>

text \<open>A node's case of the \<^verbatim>\<open>switch\<close> either falls out of it (\<^verbatim>\<open>break\<close>) or returns
  from \<^verbatim>\<open>executeWorkflow\<close>.\<close>

datatype 's step = Continue 's | Return 's

definition failNode :: "node_id \<Rightarrow> string \<Rightarrow> 'c store \<Rightarrow> 'c store step" where
  "failNode nodeId msg st =
     Return ((updateNodeData nodeId (\<lambda>d. d\<lparr>status := Some Error, error := Some msg\<rparr>) st)
               \<lparr>isRunning := False, currentNodeId := None\<rparr>)"

definition firstImage :: "string list \<Rightarrow> string option" where
  "firstImage imgs = (case imgs of [] \<Rightarrow> None | x # _ \<Rightarrow> if x \<noteq> [] then Some x else None)"

definition addToGlobalHistory :: "global_item \<Rightarrow> 'c store \<Rightarrow> 'c store" where
  "addToGlobalHistory newItem st = st\<lparr>globalImageHistory := newItem # globalImageHistory st\<rparr>"

definition execAnnotation :: "node \<Rightarrow> 'c store \<Rightarrow> 'c store step" where
  "execAnnotation node st =
     (case firstImage (images (getConnectedInputs st (node_id node))) of
        None \<Rightarrow> Continue st
      | Some img \<Rightarrow>
          let st1 = updateNodeData (node_id node) (\<lambda>d. d\<lparr>sourceImage := Some img\<rparr>) st
          in if \<not> truthy (outputImage (data node))
             then Continue (updateNodeData (node_id node) (\<lambda>d. d\<lparr>outputImage := Some img\<rparr>) st1)
             else Continue st1)"

text \<open>The request that saves the artefact when a generations folder is configured; its
  failure is only logged.\<close>

definition autoSaveGeneration :: "string \<Rightarrow> string \<Rightarrow> string \<Rightarrow> 'c store \<Rightarrow> 'c store" where
  "autoSaveGeneration img txt imageId st =
     (case generationsPath st of
        None \<Rightarrow> st
      | Some genPath \<Rightarrow>
          if genPath \<noteq> [] then
            st\<lparr>calls := calls st @ [SaveGenerationCall genPath img txt imageId]\<rparr>
          else st)"

text \<open>The success block of the image-generate case: global history, carousel history,
  node update, cost, and the best-effort save of the artefact. \<open>k\<close> numbers the
  request that was answered.\<close>

definition storeGeneration ::
  "'c::plus env \<Rightarrow> node \<Rightarrow> string \<Rightarrow> nat \<Rightarrow> string \<Rightarrow> 'c store \<Rightarrow> 'c store" where
  "storeGeneration env node txt k img st =
     (let nodeData = data node;
          timestamp = dateNow env k;
          imageId = showNat timestamp;
          st3 = addToGlobalHistory
                  \<lparr>g_image = img, g_timestamp = timestamp, g_prompt = txt,
                   g_aspectRatio = aspectRatio nodeData, g_model = model nodeData,
                   g_id = newGlobalId env k\<rparr> st;
          newHistoryItem =
            \<lparr>item_id = imageId, item_timestamp = timestamp, item_prompt = txt,
             item_aspectRatio = aspectRatio nodeData, item_model = model nodeData\<rparr>;
          updatedHistory = newHistoryItem # imageHistory nodeData;
          st4 = updateNodeData (node_id node)
                  (\<lambda>d. d\<lparr>outputImage := Some img, status := Some Complete,
                          error := None, imageHistory := updatedHistory,
                          selectedHistoryIndex := Some 0\<rparr>) st3;
          generationCost = calculateGenerationCost env (model nodeData) (resolution nodeData);
          st5 = addIncurredCost generationCost st4
      in autoSaveGeneration img txt imageId st5)"

definition execNanoBanana :: "'c::plus env \<Rightarrow> node \<Rightarrow> 'c store \<Rightarrow> 'c store step" where
  "execNanoBanana env node st =
     (let inp = getConnectedInputs st (node_id node) in
      if images inp = [] \<or> \<not> truthy (textInput inp) then
        failNode (node_id node) ''Missing image or text input'' st
      else
        let txt = orElse (textInput inp) [];
            st1 = updateNodeData (node_id node)
                    (\<lambda>d. d\<lparr>inputImages := images inp, inputPrompt := textInput inp,
                            status := Some Loading, error := None\<rparr>) st;
            nodeData = data node;
            requestPayload =
              \<lparr>req_images = images inp, req_prompt = txt,
               req_aspectRatio = aspectRatio nodeData, req_resolution = resolution nodeData,
               req_model = model nodeData, req_useGoogleSearch = useGoogleSearch nodeData\<rparr>;
            k = length (calls st1);
            st2 = st1\<lparr>calls := calls st1 @ [GenerateCall requestPayload]\<rparr>
        in case generateApi env k requestPayload of
             Throws t \<Rightarrow> failNode (node_id node) (generateThrownMessage t) st2
           | NotOk f \<Rightarrow>
               failNode (node_id node)
                 (httpErrorMessage
                    (''HTTP '' @ showNat (http_status f) @ '': '' @ http_statusText f) f) st2
           | OkJson result \<Rightarrow>
               if gen_success result \<and> truthy (gen_image result) then
                 Continue (storeGeneration env node txt k (orElse (gen_image result) []) st2)
               else failNode (node_id node) (orElse (gen_error result) ''Generation failed'') st2)"

definition execLlmGenerate :: "'c env \<Rightarrow> node \<Rightarrow> 'c store \<Rightarrow> 'c store step" where
  "execLlmGenerate env node st =
     (let inp = getConnectedInputs st (node_id node) in
      if \<not> truthy (textInput inp) then
        failNode (node_id node) ''Missing text input'' st
      else
        let txt = orElse (textInput inp) [];
            st1 = updateNodeData (node_id node)
                    (\<lambda>d. d\<lparr>inputPrompt := textInput inp, inputImages := images inp,
                            status := Some Loading, error := None\<rparr>) st;
            nodeData = data node;
            request =
              \<lparr>llm_prompt = txt,
               llm_images = (if images inp \<noteq> [] then Some (images inp) else None),
               llm_provider = provider nodeData, llm_model = model nodeData\<rparr>;
            k = length (calls st1);
            st2 = st1\<lparr>calls := calls st1 @ [LlmCall request]\<rparr>
        in case llmApi env k request of
             Throws t \<Rightarrow> failNode (node_id node) (messageOr t ''LLM generation failed'') st2
           | NotOk f \<Rightarrow>
               failNode (node_id node)
                 (httpErrorMessage (''HTTP '' @ showNat (http_status f)) f) st2
           | OkJson result \<Rightarrow>
               if llm_success result \<and> truthy (llm_text result) then
                 Continue (updateNodeData (node_id node)
                             (\<lambda>d. d\<lparr>outputText := llm_text result, status := Some Complete,
                                     error := None\<rparr>) st2)
               else failNode (node_id node) (orElse (llm_error result) ''LLM generation failed'') st2)"

text \<open>The loop that writes the cells of the split image into the child image-source nodes.\<close>

fun populateChildren ::
  "'c env \<Rightarrow> string list \<Rightarrow> nat option \<Rightarrow> nat \<Rightarrow> child_set list \<Rightarrow> 'c store \<Rightarrow> 'c store" where
  "populateChildren env splitImages cols index [] st = st"
| "populateChildren env splitImages cols index (childSet # rest) st =
     (let st' =
        (if index < length splitImages \<and> splitImages ! index \<noteq> [] then
           (case loadImage env (splitImages ! index) of
              None \<Rightarrow> st
            | Some dims \<Rightarrow>
                updateNodeData (imageInput childSet)
                  (\<lambda>d. d\<lparr>nodeImage := Some (splitImages ! index),
                          filename := Some (splitFilename index cols),
                          dimensions := Some dims\<rparr>) st)
         else st)
      in populateChildren env splitImages cols (Suc index) rest st')"

definition execSplitGrid :: "'c env \<Rightarrow> node \<Rightarrow> 'c store \<Rightarrow> 'c store step" where
  "execSplitGrid env node st =
     (case firstImage (images (getConnectedInputs st (node_id node))) of
        None \<Rightarrow> failNode (node_id node) ''No input image connected'' st
      | Some srcImage \<Rightarrow>
          let nodeData = data node in
          if \<not> isConfigured nodeData then
            failNode (node_id node) ''Node not configured - open settings first'' st
          else
            let st1 = updateNodeData (node_id node)
                        (\<lambda>d. d\<lparr>sourceImage := Some srcImage, status := Some Loading,
                                error := None\<rparr>) st
            in case splitWithDimensions env srcImage (gridRows nodeData) (gridCols nodeData) of
                 Inl t \<Rightarrow> failNode (node_id node) (messageOr t ''Failed to split image'') st1
               | Inr splitImages \<Rightarrow>
                   Continue
                     (updateNodeData (node_id node) (\<lambda>d. d\<lparr>status := Some Complete, error := None\<rparr>)
                        (populateChildren env splitImages (gridCols nodeData) 0
                           (childNodeIds nodeData) st1)))"

definition execOutput :: "node \<Rightarrow> 'c store \<Rightarrow> 'c store step" where
  "execOutput node st =
     (case firstImage (images (getConnectedInputs st (node_id node))) of
        None \<Rightarrow> Continue st
      | Some img \<Rightarrow> Continue (updateNodeData (node_id node) (\<lambda>d. d\<lparr>nodeImage := Some img\<rparr>) st))"

text \<open>The \<^verbatim>\<open>switch (node.type)\<close>; it has no case for a style-transfer node.\<close>

definition execNode :: "'c::plus env \<Rightarrow> node \<Rightarrow> 'c store \<Rightarrow> 'c store step" where
  "execNode env node st =
     (case node_type node of
        ImageInput \<Rightarrow> Continue st
      | Annotation \<Rightarrow> execAnnotation node st
      | Prompt \<Rightarrow> Continue st
      | NanoBanana \<Rightarrow> execNanoBanana env node st
      | StyleTransfer \<Rightarrow> Continue st
      | LlmGenerate \<Rightarrow> execLlmGenerate env node st
      | SplitGrid \<Rightarrow> execSplitGrid env node st
      | Output \<Rightarrow> execOutput node st)"

section \<open>Run controller: \<^verbatim>\<open>executeWorkflow\<close>\<close>

text \<open>What the run keeps from its start: the edge and group snapshot and the resume request.\<close>

record run_ctx =
  snapEdges :: "edge list"
  snapGroups :: "string \<rightharpoonup> node_group"
  isResuming :: bool
  startFromNodeId :: "node_id option"

definition nodeGroupLocked :: "(string \<rightharpoonup> node_group) \<Rightarrow> node \<Rightarrow> bool" where
  "nodeGroupLocked gs node =
     (case groupId node of
        None \<Rightarrow> False
      | Some g \<Rightarrow> if g = [] then False
                  else (case gs g of None \<Rightarrow> False | Some nodeGroup \<Rightarrow> locked nodeGroup))"

definition isResumingThisNode :: "run_ctx \<Rightarrow> node \<Rightarrow> bool" where
  "isResumingThisNode ctx node = (isResuming ctx \<and> startFromNodeId ctx = Some (node_id node))"

definition finish :: "'c store \<Rightarrow> 'c store" where
  "finish st = st\<lparr>isRunning := False, currentNodeId := None\<rparr>"

definition pauseAt :: "node \<Rightarrow> 'c store \<Rightarrow> 'c store" where
  "pauseAt node st = st\<lparr>pausedAtNodeId := Some (node_id node), isRunning := False, currentNodeId := None\<rparr>"

text \<open>
  The \<^verbatim>\<open>for\<close> loop from index \<open>i\<close> over the nodes of the order that are left, followed by
  the completion code after the loop.
\<close>

fun execFrom :: "'c::plus env \<Rightarrow> run_ctx \<Rightarrow> nat \<Rightarrow> node list \<Rightarrow> 'c store \<Rightarrow> 'c store" where
  "execFrom env ctx i [] st = finish st"
| "execFrom env ctx i (node # rest) st =
     (let st0 = (if stopRequested env i then stopWorkflow st else st) in
      if \<not> isRunning st0 then finish st0
      else if \<not> isResumingThisNode ctx node
              \<and> find hasPause (incoming (snapEdges ctx) (node_id node)) \<noteq> None
      then pauseAt node st0
      else if nodeGroupLocked (snapGroups ctx) node then execFrom env ctx (Suc i) rest st0
      else
        (case execNode env node (st0\<lparr>currentNodeId := Some (node_id node)\<rparr>) of
           Return st' \<Rightarrow> st'
         | Continue st' \<Rightarrow> execFrom env ctx (Suc i) rest st'))"

fun findIndex :: "('a \<Rightarrow> bool) \<Rightarrow> 'a list \<Rightarrow> nat option" where
  "findIndex P [] = None"
| "findIndex P (x # xs) = (if P x then Some 0 else map_option Suc (findIndex P xs))"

definition startIndex :: "node_id option \<Rightarrow> node list \<Rightarrow> nat" where
  "startIndex startFrom ns =
     (case startFrom of
        None \<Rightarrow> 0
      | Some s \<Rightarrow> if s = [] then 0
                  else (case findIndex (\<lambda>n. node_id n = s) ns of None \<Rightarrow> 0 | Some i \<Rightarrow> i))"

definition executeWorkflow :: "'c::plus env \<Rightarrow> node_id option \<Rightarrow> 'c store \<Rightarrow> 'c store" where
  "executeWorkflow env startFrom st =
     (if isRunning st then st
      else
        let resuming = (case startFrom of None \<Rightarrow> False | Some s \<Rightarrow> pausedAtNodeId st = Some s);
            st1 = st\<lparr>isRunning := True, pausedAtNodeId := None\<rparr>
        in case topoSort (edges st) (nodes st) of
             Inl x \<Rightarrow> finish st1
           | Inr order \<Rightarrow>
               let i = startIndex startFrom order
               in execFrom env
                    \<lparr>snapEdges = edges st, snapGroups = groups st,
                     isResuming = resuming, startFromNodeId = startFrom\<rparr>
                    i (drop i order) st1)"

text \<open>The state a case of the switch leaves, whichever way it ends; and the nodes whose data
  the execution of a node can write: itself and, for a grid split, its image children.\<close>

definition stepState :: "'s step \<Rightarrow> 's" where
  "stepState r = (case r of Continue s \<Rightarrow> s | Return s \<Rightarrow> s)"

definition writesTo :: "node \<Rightarrow> node_id \<Rightarrow> bool" where
  "writesTo n i =
     (node_id n = i \<or> (node_type n = SplitGrid \<and> i \<in> imageInput ` set (childNodeIds (data n))))"

section \<open>The resolver as the specification words it\<close>

text \<open>
  The specification describes the resolver edge by edge: the edges into a node, those
  of them that target an image handle or a text handle, and what the node at the
  other end offers. These definitions follow that wording; the theorems below compare
  them with \<open>getConnectedInputs\<close>.
\<close>

definition edgesInto :: "'c store \<Rightarrow> node_id \<Rightarrow> edge list" where
  "edgesInto st n = filter (\<lambda>e. target e = n) (edges st)"

definition isImageEdge :: "edge \<Rightarrow> bool" where
  "isImageEdge e = (targetHandle e = Some ''image'' \<or> \<not> truthy (targetHandle e))"

definition imageEdgesInto :: "'c store \<Rightarrow> node_id \<Rightarrow> edge list" where
  "imageEdgesInto st n = filter isImageEdge (edgesInto st n)"

definition textEdgesInto :: "'c store \<Rightarrow> node_id \<Rightarrow> edge list" where
  "textEdgesInto st n = filter (\<lambda>e. targetHandle e = Some ''text'') (edgesInto st n)"

definition imageOutput :: "node \<Rightarrow> string option" where
  "imageOutput m =
     (if node_type m = ImageInput then nodeImage (data m)
      else if node_type m = Annotation \<or> node_type m = NanoBanana then outputImage (data m)
      else None)"

definition textOutput :: "node \<Rightarrow> string option" where
  "textOutput m =
     (if node_type m = Prompt then prompt (data m)
      else if node_type m = LlmGenerate then outputText (data m)
      else None)"

definition offeredImage :: "'c store \<Rightarrow> edge \<Rightarrow> string option" where
  "offeredImage st e =
     (case getNodeById st (source e) of
        None \<Rightarrow> None
      | Some m \<Rightarrow> if truthy (imageOutput m) then imageOutput m else None)"

definition resolvedImages :: "'c store \<Rightarrow> node_id \<Rightarrow> string list" where
  "resolvedImages st n = List.map_filter (offeredImage st) (imageEdgesInto st n)"

definition givesText :: "'c store \<Rightarrow> edge \<Rightarrow> bool" where
  "givesText st e =
     (case getNodeById st (source e) of
        None \<Rightarrow> False
      | Some m \<Rightarrow> node_type m = Prompt \<or> node_type m = LlmGenerate)"

definition offeredText :: "'c store \<Rightarrow> edge \<Rightarrow> string option" where
  "offeredText st e = (case getNodeById st (source e) of None \<Rightarrow> None | Some m \<Rightarrow> textOutput m)"

definition resolvedText :: "'c store \<Rightarrow> node_id \<Rightarrow> string option" where
  "resolvedText st n =
     (case rev (filter (givesText st) (textEdgesInto st n)) of
        [] \<Rightarrow> None
      | e # _ \<Rightarrow> offeredText st e)"

text \<open>\<^verbatim>\<open>isValidConnection\<close> of \<^verbatim>\<open>components/WorkflowCanvas.tsx\<close>, the check the editor
  applies before it adds an edge.\<close>

definition imageHandles :: "string list" where
  "imageHandles = [''image'', ''content'', ''style'']"

definition textHandles :: "string list" where
  "textHandles = [''text'']"

definition isValidConnection :: "edge \<Rightarrow> bool" where
  "isValidConnection connection =
     (let sh = orElse (sourceHandle connection) []; th = orElse (targetHandle connection) [] in
      if sh \<in> set imageHandles \<and> th \<notin> set imageHandles then False
      else if sh \<in> set textHandles \<and> th \<notin> set textHandles then False
      else True)"

section \<open>Initial data and example workflows\<close>

text \<open>\<^verbatim>\<open>createDefaultNodeData\<close>, with the built-in generation defaults; it has no case for a
  style-transfer node.\<close>

definition emptyData :: node_data where
  "emptyData =
     \<lparr>nodeImage = None, filename = None, dimensions = None, sourceImage = None,
      outputImage = None, prompt = None, inputImages = [], inputPrompt = None,
      outputText = None, aspectRatio = None, resolution = None, model = None,
      useGoogleSearch = False, provider = None, status = None, error = None,
      imageHistory = [], selectedHistoryIndex = None, childNodeIds = [],
      gridRows = None, gridCols = None, isConfigured = False\<rparr>"

definition createDefaultNodeData :: "node_type \<Rightarrow> node_data" where
  "createDefaultNodeData t =
     (case t of
        ImageInput \<Rightarrow> emptyData
      | Annotation \<Rightarrow> emptyData
      | Prompt \<Rightarrow> emptyData\<lparr>prompt := Some []\<rparr>
      | NanoBanana \<Rightarrow>
          emptyData\<lparr>aspectRatio := Some ''1:1'', resolution := Some ''1K'',
                    model := Some ''nano-banana-pro'', status := Some Idle,
                    selectedHistoryIndex := Some 0\<rparr>
      | StyleTransfer \<Rightarrow> emptyData
      | LlmGenerate \<Rightarrow>
          emptyData\<lparr>provider := Some ''google'', model := Some ''gemini-3-flash-preview'',
                    status := Some Idle\<rparr>
      | SplitGrid \<Rightarrow>
          emptyData\<lparr>gridRows := Some 2, gridCols := Some 3, status := Some Idle\<rparr>
      | Output \<Rightarrow> emptyData)"

definition newNode :: "node_type \<Rightarrow> node_id \<Rightarrow> node" where
  "newNode t i = \<lparr>node_id = i, node_type = t, data = createDefaultNodeData t, groupId = None\<rparr>"

definition newEdge :: "node_id \<Rightarrow> string \<Rightarrow> node_id \<Rightarrow> string \<Rightarrow> edge" where
  "newEdge s sh t th =
     \<lparr>source = s, sourceHandle = Some sh, target = t, targetHandle = Some th, hasPause = False\<rparr>"

text \<open>The store as \<^verbatim>\<open>create\<close> initialises it, with costs counted in thousandths of a dollar.\<close>

definition initialStore :: "int store" where
  "initialStore =
     \<lparr>nodes = [], edges = [], groups = Map.empty, isRunning = False, currentNodeId = None,
      pausedAtNodeId = None, globalImageHistory = [], incurredCost = 0,
      hasUnsavedChanges = False, generationsPath = None, calls = []\<rparr>"

text \<open>An environment in which every service answers with success and nobody presses stop.\<close>

definition exEnv :: "int env" where
  "exEnv =
     \<lparr>generateApi = (\<lambda>k req. OkJson \<lparr>gen_success = True, gen_image = Some ''data:generated'',
                                        gen_error = None\<rparr>),
      llmApi = (\<lambda>k req. OkJson \<lparr>llm_success = True, llm_text = Some ''a caption'',
                                   llm_error = None\<rparr>),
      splitWithDimensions = (\<lambda>img r c. Inr [''data:cell-a'', ''data:cell-b'']),
      loadImage = (\<lambda>img. Some (64, 64)),
      dateNow = (\<lambda>k. 1000 + k),
      newGlobalId = (\<lambda>k. ''g'' @ showNat k),
      calculateGenerationCost = (\<lambda>m r. if m = Some ''nano-banana-pro'' then 134 else 39),
      stopRequested = (\<lambda>i. False)\<rparr>"

text \<open>A prompt feeding the text handle of an image-generate node that has no image input.\<close>

definition exCatStore :: "int store" where
  "exCatStore =
     initialStore
       \<lparr>nodes := [(newNode Prompt ''prompt-1'')\<lparr>data := emptyData\<lparr>prompt := Some ''draw a cat''\<rparr>\<rparr>,
                  newNode NanoBanana ''nanoBanana-2''],
        edges := [newEdge ''prompt-1'' ''text'' ''nanoBanana-2'' ''text'']\<rparr>"

definition exGenNode :: node where
  "exGenNode = newNode NanoBanana ''nanoBanana-2''"

definition exCatRunning :: "int store" where
  "exCatRunning = exCatStore\<lparr>isRunning := True\<rparr>"

definition exCatCtx :: run_ctx where
  "exCatCtx = \<lparr>snapEdges = edges exCatStore, snapGroups = Map.empty,
               isResuming = False, startFromNodeId = None\<rparr>"

text \<open>An image source that holds no image yet, wired to the image handle of a generator.\<close>

definition exEmptySourceStore :: "int store" where
  "exEmptySourceStore =
     initialStore
       \<lparr>nodes := [newNode ImageInput ''imageInput-1'', newNode NanoBanana ''nanoBanana-2''],
        edges := [newEdge ''imageInput-1'' ''image'' ''nanoBanana-2'' ''image'']\<rparr>"

text \<open>Two image sources and two prompts wired to one generator.\<close>

definition exFanInStore :: "int store" where
  "exFanInStore =
     initialStore
       \<lparr>nodes := [(newNode ImageInput ''imageInput-1'')\<lparr>data := emptyData\<lparr>nodeImage := Some ''data:a''\<rparr>\<rparr>,
                  (newNode ImageInput ''imageInput-2'')\<lparr>data := emptyData\<lparr>nodeImage := Some ''data:b''\<rparr>\<rparr>,
                  (newNode Prompt ''prompt-3'')\<lparr>data := emptyData\<lparr>prompt := Some ''first''\<rparr>\<rparr>,
                  (newNode Prompt ''prompt-4'')\<lparr>data := emptyData\<lparr>prompt := Some ''second''\<rparr>\<rparr>,
                  newNode NanoBanana ''nanoBanana-5''],
        edges := [newEdge ''imageInput-2'' ''image'' ''nanoBanana-5'' ''image'',
                  newEdge ''prompt-3'' ''text'' ''nanoBanana-5'' ''text'',
                  newEdge ''imageInput-1'' ''image'' ''nanoBanana-5'' ''image'',
                  newEdge ''prompt-4'' ''text'' ''nanoBanana-5'' ''text'']\<rparr>"

text \<open>A prompt and the reference output of a grid-split node, both wired to the text handle
  of a generator, the prompt first.\<close>

definition exMixedTextStore :: "int store" where
  "exMixedTextStore =
     initialStore
       \<lparr>nodes := [(newNode Prompt ''prompt-1'')\<lparr>data := emptyData\<lparr>prompt := Some ''draw a cat''\<rparr>\<rparr>,
                  newNode SplitGrid ''splitGrid-2'',
                  newNode NanoBanana ''nanoBanana-3''],
        edges := [newEdge ''prompt-1'' ''text'' ''nanoBanana-3'' ''text'',
                  newEdge ''splitGrid-2'' ''reference'' ''nanoBanana-3'' ''text'']\<rparr>"

text \<open>An image and a prompt feeding a generator; the prompt's edge carries a pause.\<close>

definition exPauseStore :: "int store" where
  "exPauseStore =
     initialStore
       \<lparr>nodes := [(newNode ImageInput ''imageInput-1'')\<lparr>data := emptyData\<lparr>nodeImage := Some ''data:photo''\<rparr>\<rparr>,
                  (newNode Prompt ''prompt-2'')\<lparr>data := emptyData\<lparr>prompt := Some ''draw a cat''\<rparr>\<rparr>,
                  newNode NanoBanana ''nanoBanana-3''],
        edges := [newEdge ''imageInput-1'' ''image'' ''nanoBanana-3'' ''image'',
                  (newEdge ''prompt-2'' ''text'' ''nanoBanana-3'' ''text'')\<lparr>hasPause := True\<rparr>]\<rparr>"

definition exPauseCtx :: "bool \<Rightarrow> node_id option \<Rightarrow> run_ctx" where
  "exPauseCtx resuming startFrom =
     \<lparr>snapEdges = edges exPauseStore, snapGroups = Map.empty,
      isResuming = resuming, startFromNodeId = startFrom\<rparr>"

definition exPauseGen :: node where
  "exPauseGen = newNode NanoBanana ''nanoBanana-3''"

text \<open>A prompt and two text generators in a chain, with a pause on both edges; and the
  store after a first run, which pauses before the first generator, and a resume there,
  which executes it and pauses before the second.\<close>

definition exPauseChainStore :: "int store" where
  "exPauseChainStore =
     initialStore
       \<lparr>nodes := [(newNode Prompt ''prompt-1'')\<lparr>data := emptyData\<lparr>prompt := Some ''describe a cat''\<rparr>\<rparr>,
                  newNode LlmGenerate ''llmGenerate-2'',
                  newNode LlmGenerate ''llmGenerate-3''],
        edges := [(newEdge ''prompt-1'' ''text'' ''llmGenerate-2'' ''text'')\<lparr>hasPause := True\<rparr>,
                  (newEdge ''llmGenerate-2'' ''text'' ''llmGenerate-3'' ''text'')\<lparr>hasPause := True\<rparr>]\<rparr>"

definition exPausedChain :: "int store" where
  "exPausedChain =
     executeWorkflow exEnv (Some ''llmGenerate-2'') (executeWorkflow exEnv None exPauseChainStore)"

text \<open>The environment in which the user presses stop before the third node of the order.\<close>

definition exStopEnv :: "int env" where
  "exStopEnv = exEnv\<lparr>stopRequested := (\<lambda>i. i = 2)\<rparr>"

text \<open>A workflow whose nodes are listed downstream first.\<close>

definition exBackwardStore :: "int store" where
  "exBackwardStore =
     initialStore
       \<lparr>nodes := [newNode Output ''output-4'',
                  newNode NanoBanana ''nanoBanana-3'',
                  (newNode Prompt ''prompt-2'')\<lparr>data := emptyData\<lparr>prompt := Some ''draw a cat''\<rparr>\<rparr>,
                  (newNode ImageInput ''imageInput-1'')\<lparr>data := emptyData\<lparr>nodeImage := Some ''data:photo''\<rparr>\<rparr>],
        edges := [newEdge ''nanoBanana-3'' ''image'' ''output-4'' ''image'',
                  newEdge ''prompt-2'' ''text'' ''nanoBanana-3'' ''text'',
                  newEdge ''imageInput-1'' ''image'' ''nanoBanana-3'' ''image'']\<rparr>"

text \<open>Two annotation nodes that feed each other, behind an image source that holds a photo.\<close>

definition exCycleStore :: "int store" where
  "exCycleStore =
     initialStore
       \<lparr>nodes := [(newNode ImageInput ''imageInput-1'')\<lparr>data := emptyData\<lparr>nodeImage := Some ''data:photo''\<rparr>\<rparr>,
                  newNode Annotation ''annotation-2'',
                  newNode Annotation ''annotation-3''],
        edges := [newEdge ''imageInput-1'' ''image'' ''annotation-2'' ''image'',
                  newEdge ''annotation-2'' ''image'' ''annotation-3'' ''image'',
                  newEdge ''annotation-3'' ''image'' ''annotation-2'' ''image'']\<rparr>"

text \<open>A grid split whose image child sits in a locked group.\<close>

definition exSplitChild :: node where
  "exSplitChild = (newNode ImageInput ''imageInput-3'')\<lparr>groupId := Some ''group-1''\<rparr>"

definition exSplitStore :: "int store" where
  "exSplitStore =
     initialStore
       \<lparr>nodes := [(newNode ImageInput ''imageInput-1'')\<lparr>data := emptyData\<lparr>nodeImage := Some ''data:photo''\<rparr>\<rparr>,
                  (newNode SplitGrid ''splitGrid-2'')
                    \<lparr>data := (createDefaultNodeData SplitGrid)
                       \<lparr>isConfigured := True,
                        childNodeIds := [\<lparr>imageInput = ''imageInput-3'', promptChild = ''prompt-4'',
                                          nanoBananaChild = ''nanoBanana-5''\<rparr>]\<rparr>\<rparr>,
                  exSplitChild],
        edges := [newEdge ''imageInput-1'' ''image'' ''splitGrid-2'' ''image''],
        groups := [''group-1'' \<mapsto> \<lparr>group_name = ''Group 1'', locked = True\<rparr>]\<rparr>"

text \<open>A generator in a locked group, holding an image from an earlier run, between its
  inputs and an output node.\<close>

definition exLockedGen :: node where
  "exLockedGen =
     (newNode NanoBanana ''nanoBanana-3'')
       \<lparr>data := (createDefaultNodeData NanoBanana)\<lparr>outputImage := Some ''data:old''\<rparr>,
        groupId := Some ''group-1''\<rparr>"

definition exLockedStore :: "int store" where
  "exLockedStore =
     initialStore
       \<lparr>nodes := [(newNode ImageInput ''imageInput-1'')\<lparr>data := emptyData\<lparr>nodeImage := Some ''data:photo''\<rparr>\<rparr>,
                  (newNode Prompt ''prompt-2'')\<lparr>data := emptyData\<lparr>prompt := Some ''draw a cat''\<rparr>\<rparr>,
                  exLockedGen,
                  newNode Output ''output-4''],
        edges := [newEdge ''imageInput-1'' ''image'' ''nanoBanana-3'' ''image'',
                  newEdge ''prompt-2'' ''text'' ''nanoBanana-3'' ''text'',
                  newEdge ''nanoBanana-3'' ''image'' ''output-4'' ''image''],
        groups := [''group-1'' \<mapsto> \<lparr>group_name = ''Group 1'', locked = True\<rparr>]\<rparr>"

text \<open>An image and a prompt feeding a generator, and the generator executed twice, each
  time on the node as the store holds it.\<close>

definition exGenStore :: "int store" where
  "exGenStore =
     initialStore
       \<lparr>nodes := [(newNode ImageInput ''imageInput-1'')\<lparr>data := emptyData\<lparr>nodeImage := Some ''data:photo''\<rparr>\<rparr>,
                  (newNode Prompt ''prompt-2'')\<lparr>data := emptyData\<lparr>prompt := Some ''draw a cat''\<rparr>\<rparr>,
                  newNode NanoBanana ''nanoBanana-3''],
        edges := [newEdge ''imageInput-1'' ''image'' ''nanoBanana-3'' ''image'',
                  newEdge ''prompt-2'' ''text'' ''nanoBanana-3'' ''text'']\<rparr>"

definition exGenStore1 :: "int store" where
  "exGenStore1 = stepState (execNode exEnv exPauseGen exGenStore)"

definition exGenNode1 :: node where
  "exGenNode1 = the (getNodeById exGenStore1 ''nanoBanana-3'')"

definition exGenStore2 :: "int store" where
  "exGenStore2 = stepState (execNode exEnv exGenNode1 exGenStore1)"

definition exGenNode2 :: node where
  "exGenNode2 = the (getNodeById exGenStore2 ''nanoBanana-3'')"

section \<open>Exit state of a run\<close>

lemma failNode_stopped:
  "failNode n msg st = Return st' \<Longrightarrow> \<not> isRunning st' \<and> currentNodeId st' = None"
  by (auto simp: failNode_def)

lemma execNanoBanana_Return:
  "execNanoBanana env node st = Return st' \<Longrightarrow> \<not> isRunning st' \<and> currentNodeId st' = None"
  unfolding execNanoBanana_def
  by (simp only: Let_def split: if_splits http_outcome.splits)
     (simp_all add: failNode_stopped)

lemma execLlmGenerate_Return:
  "execLlmGenerate env node st = Return st' \<Longrightarrow> \<not> isRunning st' \<and> currentNodeId st' = None"
  unfolding execLlmGenerate_def
  by (simp only: Let_def split: if_splits http_outcome.splits)
     (simp_all add: failNode_stopped)

lemma execSplitGrid_Return:
  "execSplitGrid env node st = Return st' \<Longrightarrow> \<not> isRunning st' \<and> currentNodeId st' = None"
  unfolding execSplitGrid_def
  by (simp only: Let_def split: if_splits option.splits sum.splits)
     (simp_all add: failNode_stopped)

lemma execAnnotation_Continue: "\<exists>st'. execAnnotation node st = Continue st'"
  by (simp add: execAnnotation_def Let_def split: option.splits)

lemma execOutput_Continue: "\<exists>st'. execOutput node st = Continue st'"
  by (simp add: execOutput_def split: option.splits)

lemma execNode_Return:
  assumes "execNode env node st = Return st'"
  shows "\<not> isRunning st' \<and> currentNodeId st' = None"
proof (cases "node_type node")
  case Annotation
  with assms execAnnotation_Continue[of node st] show ?thesis by (auto simp: execNode_def)
next
  case NanoBanana
  with assms show ?thesis by (simp add: execNode_def execNanoBanana_Return)
next
  case LlmGenerate
  with assms show ?thesis by (simp add: execNode_def execLlmGenerate_Return)
next
  case SplitGrid
  with assms show ?thesis by (simp add: execNode_def execSplitGrid_Return)
next
  case Output
  with assms execOutput_Continue[of node st] show ?thesis by (auto simp: execNode_def)
qed (use assms in \<open>simp_all add: execNode_def\<close>)

text \<open>One iteration of the run loop, with the state after a possible stop named \<open>st0\<close>.\<close>

lemma execFrom_Cons:
  "execFrom env ctx i (node # rest) st =
     (let st0 = (if stopRequested env i then stopWorkflow st else st) in
      if \<not> isRunning st0 then finish st0
      else if \<not> isResumingThisNode ctx node
              \<and> find hasPause (incoming (snapEdges ctx) (node_id node)) \<noteq> None
      then pauseAt node st0
      else if nodeGroupLocked (snapGroups ctx) node then execFrom env ctx (Suc i) rest st0
      else
        (case execNode env node (st0\<lparr>currentNodeId := Some (node_id node)\<rparr>) of
           Return st' \<Rightarrow> st'
         | Continue st' \<Rightarrow> execFrom env ctx (Suc i) rest st'))"
  by (simp only: execFrom.simps)

lemma execFrom_stopped:
  "\<not> isRunning (execFrom env ctx i ns st) \<and> currentNodeId (execFrom env ctx i ns st) = None"
proof (induction ns arbitrary: i st)
  case Nil
  show ?case by (simp add: finish_def)
next
  case (Cons node rest)
  define st0 where "st0 = (if stopRequested env i then stopWorkflow st else st)"
  define r where "r = execNode env node (st0\<lparr>currentNodeId := Some (node_id node)\<rparr>)"
  have eq: "execFrom env ctx i (node # rest) st =
     (if \<not> isRunning st0 then finish st0
      else if \<not> isResumingThisNode ctx node
              \<and> find hasPause (incoming (snapEdges ctx) (node_id node)) \<noteq> None
      then pauseAt node st0
      else if nodeGroupLocked (snapGroups ctx) node then execFrom env ctx (Suc i) rest st0
      else (case r of Return st' \<Rightarrow> st' | Continue st' \<Rightarrow> execFrom env ctx (Suc i) rest st'))"
    unfolding st0_def r_def by (simp only: execFrom_Cons Let_def)
  have ret: "\<not> isRunning x \<and> currentNodeId x = None" if "r = Return x" for x
    using that unfolding r_def by (rule execNode_Return)
  show ?case
    unfolding eq using Cons.IH ret
    by (cases r) (simp_all add: finish_def pauseAt_def)
qed

text \<open>
  Claim C10. A run of \<^verbatim>\<open>executeWorkflow\<close>, that is, a call made while no run is in
  progress, ends with \<open>isRunning = false\<close> and \<open>currentNodeId = null\<close> on every path by
  which it leaves: completion, a stop seen between two nodes, a pause at a pause edge, a
  node-level validation or service failure, and an exception caught at the top level.
\<close>

theorem executeWorkflow_exit_state:
  "\<not> isRunning st \<Longrightarrow>
     \<not> isRunning (executeWorkflow env startFrom st)
     \<and> currentNodeId (executeWorkflow env startFrom st) = None"
  by (simp add: executeWorkflow_def Let_def execFrom_stopped finish_def split: sum.splits)

theorem executeWorkflow_exit_state_witness:
  "\<not> isRunning exCatStore
   \<and> map (status \<circ> data) (nodes (executeWorkflow exEnv None exCatStore)) = [None, Some Error]
   \<and> \<not> isRunning (executeWorkflow exEnv None exCatStore)
   \<and> currentNodeId (executeWorkflow exEnv None exCatStore) = None
   \<and> \<not> isRunning exPauseStore
   \<and> pausedAtNodeId (executeWorkflow exEnv None exPauseStore) = Some ''nanoBanana-3''
   \<and> \<not> isRunning (executeWorkflow exEnv None exPauseStore)
   \<and> currentNodeId (executeWorkflow exEnv None exPauseStore) = None
   \<and> \<not> isRunning exCycleStore
   \<and> topoSort (edges exCycleStore) (nodes exCycleStore) = Inl CycleDetected
   \<and> \<not> isRunning (executeWorkflow exEnv None exCycleStore)
   \<and> currentNodeId (executeWorkflow exEnv None exCycleStore) = None
   \<and> \<not> isRunning exGenStore
   \<and> map (status \<circ> data) (nodes (executeWorkflow exEnv None exGenStore))
       = [None, None, Some Complete]
   \<and> \<not> isRunning (executeWorkflow exEnv None exGenStore)
   \<and> currentNodeId (executeWorkflow exEnv None exGenStore) = None
   \<and> map (status \<circ> data) (nodes (executeWorkflow exStopEnv None exGenStore))
       = [None, None, Some Idle]
   \<and> \<not> isRunning (executeWorkflow exStopEnv None exGenStore)
   \<and> currentNodeId (executeWorkflow exStopEnv None exGenStore) = None"
proof -
  have h1: "\<not> isRunning exCatStore"
    by (simp add: exCatStore_def initialStore_def)
  have h2: "\<not> isRunning exPauseStore"
    by (simp add: exPauseStore_def initialStore_def)
  have h3: "\<not> isRunning exCycleStore"
    by (simp add: exCycleStore_def initialStore_def)
  have h4: "\<not> isRunning exGenStore"
    by (simp add: exGenStore_def initialStore_def)
  have paths: "map (status \<circ> data) (nodes (executeWorkflow exEnv None exCatStore)) = [None, Some Error]"
    "pausedAtNodeId (executeWorkflow exEnv None exPauseStore) = Some ''nanoBanana-3''"
    "topoSort (edges exCycleStore) (nodes exCycleStore) = Inl CycleDetected"
    "map (status \<circ> data) (nodes (executeWorkflow exEnv None exGenStore))
       = [None, None, Some Complete]"
    "map (status \<circ> data) (nodes (executeWorkflow exStopEnv None exGenStore))
       = [None, None, Some Idle]"
    by code_simp+
  from executeWorkflow_exit_state[OF h1, of exEnv None]
    executeWorkflow_exit_state[OF h2, of exEnv None]
    executeWorkflow_exit_state[OF h3, of exEnv None]
    executeWorkflow_exit_state[OF h4, of exEnv None]
    executeWorkflow_exit_state[OF h4, of exStopEnv None]
    h1 h2 h3 h4 paths
  show ?thesis by blast
qed

text \<open>
  A call made while a run is in progress starts no run: it is ignored and leaves the
  store as it was, with the flags of the run that is still going on.
\<close>

lemma executeWorkflow_ignored_while_running:
  "isRunning st \<Longrightarrow> executeWorkflow env startFrom st = st"
  by (simp add: executeWorkflow_def)

section \<open>What the resolver returns\<close>

lemma images_pushImage:
  "images (pushImage v acc) = images acc @ (if truthy v then [the v] else [])"
  by (simp add: pushImage_def truthy_def split: option.splits)

lemma textInput_pushImage [simp]: "textInput (pushImage v acc) = textInput acc"
  by (simp add: pushImage_def split: option.splits)

lemma images_collectEdge:
  "images (collectEdge (nodes st) e acc) =
     images acc @ (if isImageEdge e then (case offeredImage st e of None \<Rightarrow> [] | Some s \<Rightarrow> [s]) else [])"
  by (cases "getNodeById st (source e)")
     (auto simp: collectEdge_def getNodeById_def offeredImage_def isImageEdge_def imageOutput_def
        images_pushImage Let_def truthy_def split: option.splits)

lemma textInput_collectEdge:
  "textInput (collectEdge (nodes st) e acc) =
     (if targetHandle e = Some ''text'' \<and> givesText st e then offeredText st e else textInput acc)"
  by (cases "getNodeById st (source e)")
     (auto simp: collectEdge_def getNodeById_def offeredText_def givesText_def textOutput_def
        Let_def truthy_def split: option.splits)

lemma images_foldl_collectEdge:
  "images (foldl (\<lambda>acc e. collectEdge (nodes st) e acc) acc es) =
     images acc @ List.map_filter (offeredImage st) (filter isImageEdge es)"
proof (induction es arbitrary: acc)
  case Nil
  show ?case by simp
next
  case (Cons e es)
  show ?case
    by (simp add: Cons.IH images_collectEdge split: option.splits)
qed

lemma textInput_foldl_collectEdge:
  "textInput (foldl (\<lambda>acc e. collectEdge (nodes st) e acc) acc es) =
     (case rev (filter (givesText st) (filter (\<lambda>e. targetHandle e = Some ''text'') es)) of
        [] \<Rightarrow> textInput acc
      | e # _ \<Rightarrow> offeredText st e)"
proof (induction es rule: rev_induct)
  case Nil
  show ?case by simp
next
  case (snoc e es)
  show ?case
    by (simp add: snoc.IH textInput_collectEdge)
qed

lemma images_getConnectedInputs:
  "images (getConnectedInputs st n) = resolvedImages st n"
  by (simp add: getConnectedInputs_def resolvedImages_def imageEdgesInto_def edgesInto_def
      images_foldl_collectEdge)

lemma textInput_getConnectedInputs:
  "textInput (getConnectedInputs st n) = resolvedText st n"
  by (simp add: getConnectedInputs_def resolvedText_def textEdgesInto_def edgesInto_def
      textInput_foldl_collectEdge split: list.splits)

lemma length_map_filter_le: "length (List.map_filter f xs) \<le> length xs"
  by (simp add: List.map_filter_def)

lemma map_filter_all_Some:
  "\<forall>x\<in>set xs. f x \<noteq> None \<Longrightarrow> List.map_filter f xs = map (\<lambda>x. the (f x)) xs"
  by (induction xs) auto

text \<open>
  Claim C4 (as amended). For a node \<open>n\<close> none of whose incoming edges targets a content
  or style handle, let the image edges be the incoming edges whose target handle is
  \<^verbatim>\<open>"image"\<close> or absent, \<open>N\<close> of them. The resolver returns, in edge-array order, the
  image offered by each of them whose source exists, is an image-source, annotation
  or image-generate node and holds a non-empty image: at most \<open>N\<close> elements, and exactly
  one per image edge when every image edge offers an image.
\<close>

theorem getConnectedInputs_images:
  assumes "\<forall>e\<in>set (edgesInto st n).
             targetHandle e \<noteq> Some ''content'' \<and> targetHandle e \<noteq> Some ''style''"
  shows "images (getConnectedInputs st n) = resolvedImages st n
       \<and> length (images (getConnectedInputs st n)) \<le> length (imageEdgesInto st n)
       \<and> ((\<forall>e\<in>set (imageEdgesInto st n). offeredImage st e \<noteq> None) \<longrightarrow>
            images (getConnectedInputs st n) =
              map (\<lambda>e. the (offeredImage st e)) (imageEdgesInto st n))"
  by (simp add: images_getConnectedInputs resolvedImages_def length_map_filter_le
      map_filter_all_Some)

theorem getConnectedInputs_images_witness:
  "map targetHandle (edgesInto exFanInStore ''nanoBanana-5'')
     = [Some ''image'', Some ''text'', Some ''image'', Some ''text'']
   \<and> map source (imageEdgesInto exFanInStore ''nanoBanana-5'') = [''imageInput-2'', ''imageInput-1'']
   \<and> map (offeredImage exFanInStore) (imageEdgesInto exFanInStore ''nanoBanana-5'')
       = [Some ''data:b'', Some ''data:a'']
   \<and> images (getConnectedInputs exFanInStore ''nanoBanana-5'') = [''data:b'', ''data:a'']"
proof -
  have handles: "map targetHandle (edgesInto exFanInStore ''nanoBanana-5'')
     = [Some ''image'', Some ''text'', Some ''image'', Some ''text'']"
    by (simp add: edgesInto_def exFanInStore_def initialStore_def newEdge_def)
  have img: "imageEdgesInto exFanInStore ''nanoBanana-5'' =
      [newEdge ''imageInput-2'' ''image'' ''nanoBanana-5'' ''image'',
       newEdge ''imageInput-1'' ''image'' ''nanoBanana-5'' ''image'']"
    by (simp add: imageEdgesInto_def edgesInto_def exFanInStore_def initialStore_def
        newEdge_def isImageEdge_def truthy_def)
  have off: "map (offeredImage exFanInStore) (imageEdgesInto exFanInStore ''nanoBanana-5'')
       = [Some ''data:b'', Some ''data:a'']"
    unfolding img
    by (simp add: offeredImage_def getNodeById_def exFanInStore_def initialStore_def
        newEdge_def newNode_def imageOutput_def truthy_def)
  have h: "\<forall>e\<in>set (edgesInto exFanInStore ''nanoBanana-5'').
             targetHandle e \<noteq> Some ''content'' \<and> targetHandle e \<noteq> Some ''style''"
    by (simp add: edgesInto_def exFanInStore_def initialStore_def newEdge_def)
  have all: "\<forall>e\<in>set (imageEdgesInto exFanInStore ''nanoBanana-5''). offeredImage exFanInStore e \<noteq> None"
    using off unfolding img by simp
  from getConnectedInputs_images[OF h] all
  have "images (getConnectedInputs exFanInStore ''nanoBanana-5'') =
          map (\<lambda>e. the (offeredImage exFanInStore e)) (imageEdgesInto exFanInStore ''nanoBanana-5'')"
    by blast
  also have "\<dots> = [''data:b'', ''data:a'']"
    using off unfolding img by simp
  finally show ?thesis using handles img off by (simp add: newEdge_def)
qed

text \<open>
  The claim as stated fails on a source that holds no image: here the generator has one
  incoming image edge, and the resolver returns the empty list.
\<close>

theorem getConnectedInputs_images_counterexample:
  "length (imageEdgesInto exEmptySourceStore ''nanoBanana-2'') = 1
   \<and> images (getConnectedInputs exEmptySourceStore ''nanoBanana-2'') = []"
  by (simp add: imageEdgesInto_def edgesInto_def getConnectedInputs_def collectEdge_def
      exEmptySourceStore_def initialStore_def newEdge_def newNode_def isImageEdge_def
      createDefaultNodeData_def emptyData_def pushImage_def truthy_def)

text \<open>
  Claim C5. Let the incoming edges of a node that target its text handle end, in
  edge-array order, with an edge whose source exists and is a prompt or text-generate
  node, the kinds of node that have a text output. Then the resolved text is the text
  output of that source, however many text edges come before it and whatever they
  contributed.
\<close>

theorem getConnectedInputs_text_last:
  assumes last: "textEdgesInto st n = es @ [e]"
    and src: "getNodeById st (source e) = Some m"
    and kind: "node_type m = Prompt \<or> node_type m = LlmGenerate"
  shows "textInput (getConnectedInputs st n) = textOutput m"
proof -
  from src kind have g: "givesText st e" by (simp add: givesText_def)
  from last g have "rev (filter (givesText st) (textEdgesInto st n))
      = e # rev (filter (givesText st) es)"
    by simp
  then have "resolvedText st n = offeredText st e"
    by (simp add: resolvedText_def)
  with src show ?thesis
    by (simp add: textInput_getConnectedInputs offeredText_def)
qed

theorem getConnectedInputs_text_last_witness:
  "textEdgesInto exFanInStore ''nanoBanana-5''
     = [newEdge ''prompt-3'' ''text'' ''nanoBanana-5'' ''text'']
       @ [newEdge ''prompt-4'' ''text'' ''nanoBanana-5'' ''text'']
   \<and> map_option node_type
        (getNodeById exFanInStore (source (newEdge ''prompt-4'' ''text'' ''nanoBanana-5'' ''text'')))
       = Some Prompt
   \<and> map_option textOutput (getNodeById exFanInStore ''prompt-3'') = Some (Some ''first'')
   \<and> map_option textOutput (getNodeById exFanInStore ''prompt-4'') = Some (Some ''second'')
   \<and> textInput (getConnectedInputs exFanInStore ''nanoBanana-5'') = Some ''second''"
proof -
  let ?m = "(newNode Prompt ''prompt-4'')\<lparr>data := emptyData\<lparr>prompt := Some ''second''\<rparr>\<rparr>"
  have last: "textEdgesInto exFanInStore ''nanoBanana-5''
     = [newEdge ''prompt-3'' ''text'' ''nanoBanana-5'' ''text'']
       @ [newEdge ''prompt-4'' ''text'' ''nanoBanana-5'' ''text'']"
    by (simp add: textEdgesInto_def edgesInto_def exFanInStore_def initialStore_def newEdge_def)
  have src: "getNodeById exFanInStore (source (newEdge ''prompt-4'' ''text'' ''nanoBanana-5'' ''text''))
      = Some ?m"
    by (simp add: getNodeById_def exFanInStore_def initialStore_def newEdge_def newNode_def)
  have kind: "node_type ?m = Prompt \<or> node_type ?m = LlmGenerate"
    by (simp add: newNode_def)
  have first: "map_option textOutput (getNodeById exFanInStore ''prompt-3'') = Some (Some ''first'')"
    and second: "map_option textOutput (getNodeById exFanInStore ''prompt-4'') = Some (Some ''second'')"
    by (simp_all add: getNodeById_def textOutput_def exFanInStore_def initialStore_def newNode_def)
  have out: "textOutput ?m = Some ''second''"
    by (simp add: textOutput_def newNode_def)
  from getConnectedInputs_text_last[OF last src kind] last src first second out
  show ?thesis by (simp add: newNode_def)
qed

text \<open>
  The hypothesis on the last edge is needed. A text-handle edge from a node that has no
  text output is skipped by the resolver, so that the text of an earlier edge stays;
  the editor's connection check accepts such an edge from the reference output of a
  grid-split node.
\<close>

lemma text_edge_without_text_output_is_skipped:
  "textEdgesInto exMixedTextStore ''nanoBanana-3''
     = [newEdge ''prompt-1'' ''text'' ''nanoBanana-3'' ''text'',
        newEdge ''splitGrid-2'' ''reference'' ''nanoBanana-3'' ''text'']
   \<and> isValidConnection (newEdge ''splitGrid-2'' ''reference'' ''nanoBanana-3'' ''text'')
   \<and> offeredText exMixedTextStore (newEdge ''splitGrid-2'' ''reference'' ''nanoBanana-3'' ''text'') = None
   \<and> textInput (getConnectedInputs exMixedTextStore ''nanoBanana-3'') = Some ''draw a cat''"
  by (simp add: textEdgesInto_def edgesInto_def getConnectedInputs_def collectEdge_def
      isValidConnection_def imageHandles_def textHandles_def orElse_def
      offeredText_def getNodeById_def textOutput_def
      exMixedTextStore_def initialStore_def newEdge_def newNode_def
      createDefaultNodeData_def emptyData_def pushImage_def truthy_def)

section \<open>The run loop at one node\<close>

lemma getConnectedInputs_currentNodeId [simp]:
  "getConnectedInputs (st\<lparr>currentNodeId := c\<rparr>) n = getConnectedInputs st n"
  by (simp add: getConnectedInputs_def)

lemma execNanoBanana_missing:
  "images (getConnectedInputs st (node_id node)) = []
     \<or> \<not> truthy (textInput (getConnectedInputs st (node_id node))) \<Longrightarrow>
   execNanoBanana env node st = failNode (node_id node) ''Missing image or text input'' st"
  by (simp add: execNanoBanana_def Let_def)

text \<open>
  Claim C3. When the run loop executes an image-generate node (the run is on, the node
  is not paused before and not in a locked group) whose resolved image list is empty or
  whose resolved text is null (or empty), the run ends there: every stored node with
  that id gets status \<open>error\<close> and the message \<^verbatim>\<open>Missing image or text input\<close>, all
  other nodes stay as they were (no later node of the order runs), no request is sent
  to any service, and the run is over.
\<close>

theorem nanoBanana_missing_input:
  assumes kind: "node_type node = NanoBanana"
    and missing: "images (getConnectedInputs st (node_id node)) = []
                  \<or> \<not> truthy (textInput (getConnectedInputs st (node_id node)))"
    and running: "isRunning st" "\<not> stopRequested env i"
    and nopause: "isResumingThisNode ctx node
                  \<or> find hasPause (incoming (snapEdges ctx) (node_id node)) = None"
    and unlocked: "\<not> nodeGroupLocked (snapGroups ctx) node"
  shows "nodes (execFrom env ctx i (node # rest) st) =
           map (\<lambda>m. if node_id m = node_id node
                     then m\<lparr>data := (data m)\<lparr>status := Some Error,
                                               error := Some ''Missing image or text input''\<rparr>\<rparr>
                     else m) (nodes st)
         \<and> calls (execFrom env ctx i (node # rest) st) = calls st
         \<and> \<not> isRunning (execFrom env ctx i (node # rest) st)
         \<and> currentNodeId (execFrom env ctx i (node # rest) st) = None"
proof -
  have "execNode env node (st\<lparr>currentNodeId := Some (node_id node)\<rparr>) =
          failNode (node_id node) ''Missing image or text input''
            (st\<lparr>currentNodeId := Some (node_id node)\<rparr>)"
    using kind missing by (simp add: execNode_def execNanoBanana_missing)
  then have "execFrom env ctx i (node # rest) st =
          (updateNodeData (node_id node)
             (\<lambda>d. d\<lparr>status := Some Error, error := Some ''Missing image or text input''\<rparr>)
             (st\<lparr>currentNodeId := Some (node_id node)\<rparr>))
          \<lparr>isRunning := False, currentNodeId := None\<rparr>"
    using running nopause unlocked
    by (auto simp: execFrom_Cons Let_def failNode_def)
  then show ?thesis
    by (simp add: updateNodeData_def)
qed

theorem nanoBanana_missing_input_witness:
  "node_type exGenNode = NanoBanana
   \<and> images (getConnectedInputs exCatRunning (node_id exGenNode)) = []
   \<and> textInput (getConnectedInputs exCatRunning (node_id exGenNode)) = Some ''draw a cat''
   \<and> isRunning exCatRunning
   \<and> map (status \<circ> data) (nodes (execFrom exEnv exCatCtx 1 [exGenNode] exCatRunning))
       = [None, Some Error]
   \<and> map (error \<circ> data) (nodes (execFrom exEnv exCatCtx 1 [exGenNode] exCatRunning))
       = [None, Some ''Missing image or text input'']
   \<and> calls (execFrom exEnv exCatCtx 1 [exGenNode] exCatRunning) = []
   \<and> \<not> isRunning (execFrom exEnv exCatCtx 1 [exGenNode] exCatRunning)
   \<and> map (status \<circ> data) (nodes (executeWorkflow exEnv None exCatStore)) = [None, Some Error]
   \<and> calls (executeWorkflow exEnv None exCatStore) = []"
proof -
  have kind: "node_type exGenNode = NanoBanana"
    by (simp add: exGenNode_def newNode_def)
  have inp: "getConnectedInputs exCatRunning (node_id exGenNode)
      = \<lparr>images = [], textInput = Some ''draw a cat''\<rparr>"
    by (simp add: getConnectedInputs_def collectEdge_def exCatRunning_def exCatStore_def
        initialStore_def exGenNode_def newNode_def newEdge_def truthy_def)
  have running: "isRunning exCatRunning" "\<not> stopRequested exEnv 1"
    by (simp_all add: exCatRunning_def exEnv_def)
  have nopause: "isResumingThisNode exCatCtx exGenNode
      \<or> find hasPause (incoming (snapEdges exCatCtx) (node_id exGenNode)) = None"
    by (simp add: exCatCtx_def exCatStore_def initialStore_def incoming_def newEdge_def)
  have unlocked: "\<not> nodeGroupLocked (snapGroups exCatCtx) exGenNode"
    by (simp add: nodeGroupLocked_def exGenNode_def newNode_def)
  have missing: "images (getConnectedInputs exCatRunning (node_id exGenNode)) = []
      \<or> \<not> truthy (textInput (getConnectedInputs exCatRunning (node_id exGenNode)))"
    by (simp add: inp)
  note r = nanoBanana_missing_input[OF kind missing running nopause unlocked, of "[]"]
  have st: "map (status \<circ> data) (nodes (execFrom exEnv exCatCtx 1 [exGenNode] exCatRunning))
       = [None, Some Error]"
    and er: "map (error \<circ> data) (nodes (execFrom exEnv exCatCtx 1 [exGenNode] exCatRunning))
       = [None, Some ''Missing image or text input'']"
    and ca: "calls (execFrom exEnv exCatCtx 1 [exGenNode] exCatRunning) = []"
    using r
    by (simp_all add: exCatRunning_def exCatStore_def initialStore_def exGenNode_def newNode_def
        createDefaultNodeData_def emptyData_def)
  have whole: "map (status \<circ> data) (nodes (executeWorkflow exEnv None exCatStore)) = [None, Some Error]
      \<and> calls (executeWorkflow exEnv None exCatStore) = []"
    by code_simp
  from kind inp running r st er ca whole show ?thesis by simp
qed

text \<open>
  Claim C9. Once \<^verbatim>\<open>stopWorkflow\<close> has run between two nodes (the environment reports it
  before iteration \<open>j\<close>, or the state at the head of iteration \<open>j\<close> already has the run
  flag down), the loop over the remaining nodes \<open>rest\<close> executes none of them: the
  result is the state the stop left, with every node's data and the list of service
  requests as they were.
\<close>

theorem stop_between_nodes:
  assumes "stopRequested env j \<or> \<not> isRunning st"
  shows "execFrom env ctx j rest st = stopWorkflow st
         \<and> nodes (execFrom env ctx j rest st) = nodes st
         \<and> calls (execFrom env ctx j rest st) = calls st"
proof -
  have "execFrom env ctx j rest st = stopWorkflow st"
  proof (cases rest)
    case Nil
    then show ?thesis by (simp add: finish_def stopWorkflow_def)
  next
    case (Cons node rest')
    with assms show ?thesis
      by (auto simp: execFrom_Cons Let_def finish_def stopWorkflow_def)
  qed
  then show ?thesis by (simp add: stopWorkflow_def)
qed

theorem stop_between_nodes_witness:
  "stopRequested exStopEnv 2
   \<and> isRunning (exPauseStore\<lparr>isRunning := True\<rparr>)
   \<and> execFrom exStopEnv (exPauseCtx True (Some ''nanoBanana-3'')) 2 [exPauseGen]
        (exPauseStore\<lparr>isRunning := True\<rparr>)
       = exPauseStore\<lparr>isRunning := False\<rparr>
   \<and> calls (executeWorkflow exStopEnv (Some ''nanoBanana-3'')
              (exPauseStore\<lparr>pausedAtNodeId := Some ''nanoBanana-3''\<rparr>)) = []
   \<and> map (status \<circ> data) (nodes (executeWorkflow exStopEnv (Some ''nanoBanana-3'')
              (exPauseStore\<lparr>pausedAtNodeId := Some ''nanoBanana-3''\<rparr>))) = [None, None, Some Idle]
   \<and> map (status \<circ> data) (nodes (executeWorkflow exEnv (Some ''nanoBanana-3'')
              (exPauseStore\<lparr>pausedAtNodeId := Some ''nanoBanana-3''\<rparr>))) = [None, None, Some Complete]"
proof -
  have h: "stopRequested exStopEnv 2 \<or> \<not> isRunning (exPauseStore\<lparr>isRunning := True\<rparr>)"
    by (simp add: exStopEnv_def)
  have e: "execFrom exStopEnv (exPauseCtx True (Some ''nanoBanana-3'')) 2 [exPauseGen]
        (exPauseStore\<lparr>isRunning := True\<rparr>) = exPauseStore\<lparr>isRunning := False\<rparr>"
    using stop_between_nodes[OF h, of "exPauseCtx True (Some ''nanoBanana-3'')" "[exPauseGen]"]
    by (simp add: stopWorkflow_def exPauseStore_def initialStore_def)
  have whole: "calls (executeWorkflow exStopEnv (Some ''nanoBanana-3'')
              (exPauseStore\<lparr>pausedAtNodeId := Some ''nanoBanana-3''\<rparr>)) = []
   \<and> map (status \<circ> data) (nodes (executeWorkflow exStopEnv (Some ''nanoBanana-3'')
              (exPauseStore\<lparr>pausedAtNodeId := Some ''nanoBanana-3''\<rparr>))) = [None, None, Some Idle]
   \<and> map (status \<circ> data) (nodes (executeWorkflow exEnv (Some ''nanoBanana-3'')
              (exPauseStore\<lparr>pausedAtNodeId := Some ''nanoBanana-3''\<rparr>))) = [None, None, Some Complete]"
    by code_simp
  from e whole show ?thesis by (simp add: exStopEnv_def)
qed

section \<open>The topological sort\<close>

declare visit.simps [simp del]

lemma visiting_markDone [simp]: "visiting (markDone ns nid st) = visiting st - {nid}"
  by (simp add: markDone_def Let_def split: option.splits)

lemma visited_markDone [simp]: "visited (markDone ns nid st) = insert nid (visited st)"
  by (simp add: markDone_def Let_def split: option.splits)

lemma sorted_markDone:
  "sorted (markDone ns nid st) =
     (case find (\<lambda>n. node_id n = nid) ns of None \<Rightarrow> sorted st | Some n \<Rightarrow> sorted st @ [n])"
  by (simp add: markDone_def Let_def split: option.splits)

lemma visit_cases:
  assumes "visit es ns nid st = Inr r"
  obtains (seen) "nid \<in> visited st" "r = st"
  | (fresh) st' where "nid \<notin> visited st" "nid \<notin> visiting st"
      "visitEach es ns (incoming es nid) (st\<lparr>visiting := insert nid (visiting st)\<rparr>) = Inr st'"
      "r = markDone ns nid st'"
  using assms by (auto simp: visit.simps split: if_splits sum.splits)

lemma visitEach_Cons_cases:
  assumes "visitEach es ns (e # rest) st = Inr r"
  obtains b where "visit es ns (source e) st = Inr b" "visitEach es ns rest b = Inr r"
  using assms by (auto split: sum.splits)

lemma visiting_kept:
  "visit es ns nid st = Inr r \<Longrightarrow> visiting r = visiting st"
  "visitEach es ns rest st = Inr r \<Longrightarrow> visiting r = visiting st"
proof (induction es ns nid st and es ns rest st arbitrary: r and r rule: visit_visitEach.induct)
  case (1 es ns nid st)
  from "1.prems" show ?case
  proof (cases rule: visit_cases)
    case seen
    then show ?thesis by simp
  next
    case (fresh st')
    from "1.IH"[OF fresh(1,2,3)] have "visiting st' = insert nid (visiting st)" by simp
    with fresh show ?thesis by simp
  qed
next
  case (2 es ns st)
  then show ?case by simp
next
  case (3 es ns e rest st)
  from "3.prems" obtain b where b: "visit es ns (source e) st = Inr b"
    and r: "visitEach es ns rest b = Inr r"
    by (rule visitEach_Cons_cases)
  from "3.IH"(1)[OF b] "3.IH"(2)[OF b r] show ?case by simp
qed

lemma closed_rtrancl:
  assumes "\<forall>e\<in>set es. target e \<in> V \<longrightarrow> source e \<in> V"
    and "(a, b) \<in> (edgeRel es)\<^sup>*" and "b \<in> V"
  shows "a \<in> V"
  using assms(2,3)
proof (induction rule: converse_rtrancl_induct)
  case base
  then show ?case by simp
next
  case (step y z)
  then have "z \<in> V" by simp
  with step(1) assms(1) show ?case by (auto simp: edgeRel_def)
qed

lemma respectsEdges_snoc:
  assumes old: "respectsEdges es xs"
    and ids: "node_id ` set xs \<subseteq> V"
    and closed: "\<forall>e\<in>set es. target e \<in> V \<longrightarrow> source e \<in> V"
    and fresh: "node_id n \<notin> V"
    and srcs: "\<forall>e\<in>set es. target e = node_id n \<longrightarrow> source e \<in> V"
  shows "respectsEdges es (xs @ [n])"
  unfolding respectsEdges_def
proof (intro ballI allI impI)
  fix e i j
  assume e: "e \<in> set es" and i: "i < length (xs @ [n])" and j: "j < length (xs @ [n])"
    and ij: "node_id ((xs @ [n]) ! i) = source e \<and> node_id ((xs @ [n]) ! j) = target e"
  show "i < j"
  proof (cases "j < length xs")
    case jl: True
    show ?thesis
    proof (cases "i < length xs")
      case True
      with jl ij e old show ?thesis by (auto simp: respectsEdges_def nth_append)
    next
      case False
      with i have "i = length xs" by simp
      with ij have s: "source e = node_id n" by simp
      from jl ij have "target e = node_id (xs ! j)" by (simp add: nth_append)
      with jl ids have "target e \<in> V" by auto
      with closed e have "source e \<in> V" by blast
      with s fresh show ?thesis by simp
    qed
  next
    case False
    with j have jn: "j = length xs" by simp
    with ij have t: "target e = node_id n" by simp
    show ?thesis
    proof (cases "i < length xs")
      case True
      with jn show ?thesis by simp
    next
      case False
      with i have "i = length xs" by simp
      with ij have "source e = node_id n" by simp
      moreover from t srcs e have "source e \<in> V" by blast
      ultimately show ?thesis using fresh by simp
    qed
  qed
qed

lemma markDone_inv:
  assumes inv: "sortInv es ns st'"
    and vis: "nid \<in> visiting st'"
    and srcs: "source ` set (incoming es nid) \<subseteq> visited st'"
  shows "sortInv es ns (markDone ns nid st')"
proof -
  let ?V = "visited st'"
  from inv have disj: "?V \<inter> visiting st' = {}"
    and closed: "\<forall>e\<in>set es. target e \<in> ?V \<longrightarrow> source e \<in> ?V"
    and nocyc: "\<forall>x\<in>?V. (x, x) \<notin> (edgeRel es)\<^sup>+"
    and dist: "distinct (map node_id (sorted st'))"
    and ids: "node_id ` set (sorted st') = ?V \<inter> node_id ` set ns"
    and sub: "set (sorted st') \<subseteq> set ns"
    and ord: "respectsEdges es (sorted st')"
    by (simp_all add: sortInv_def)
  from disj vis have fresh: "nid \<notin> ?V" by auto
  from srcs have srcs': "\<forall>e\<in>set es. target e = nid \<longrightarrow> source e \<in> ?V"
    by (auto simp: incoming_def)
  have c1: "insert nid ?V \<inter> (visiting st' - {nid}) = {}"
    using disj by auto
  have c2: "\<forall>e\<in>set es. target e \<in> insert nid ?V \<longrightarrow> source e \<in> insert nid ?V"
    using closed srcs' by auto
  have "(nid, nid) \<notin> (edgeRel es)\<^sup>+"
  proof
    assume "(nid, nid) \<in> (edgeRel es)\<^sup>+"
    then obtain z where z1: "(nid, z) \<in> (edgeRel es)\<^sup>*" and z2: "(z, nid) \<in> edgeRel es"
      by (meson tranclD2)
    from z2 srcs' have "z \<in> ?V" by (auto simp: edgeRel_def)
    with closed z1 have "nid \<in> ?V" by (rule closed_rtrancl)
    with fresh show False by simp
  qed
  with nocyc have c3: "\<forall>x\<in>insert nid ?V. (x, x) \<notin> (edgeRel es)\<^sup>+" by simp
  show ?thesis
  proof (cases "find (\<lambda>n. node_id n = nid) ns")
    case None
    then have "nid \<notin> node_id ` set ns" by (auto simp: find_None_iff)
    with None c1 c2 c3 dist ids sub ord show ?thesis
      by (simp add: sortInv_def sorted_markDone)
  next
    case (Some n)
    then have n: "node_id n = nid" "n \<in> set ns"
      by (auto simp: find_Some_iff in_set_conv_nth)
    from ids fresh have notin: "nid \<notin> node_id ` set (sorted st')" by auto
    have o: "respectsEdges es (sorted st' @ [n])"
      using ord _ closed _ _
    proof (rule respectsEdges_snoc)
      show "node_id ` set (sorted st') \<subseteq> ?V" using ids by auto
      show "node_id n \<notin> ?V" using n fresh by simp
      show "\<forall>e\<in>set es. target e = node_id n \<longrightarrow> source e \<in> ?V" using srcs' n by simp
    qed
    have i: "node_id ` set (sorted st' @ [n]) = insert nid ?V \<inter> node_id ` set ns"
      using ids n by auto
    from Some c1 c2 c3 dist notin n sub o i show ?thesis
      by (simp add: sortInv_def sorted_markDone)
  qed
qed

lemma visit_inv:
  "visit es ns nid st = Inr r \<Longrightarrow> sortInv es ns st \<Longrightarrow>
     sortInv es ns r \<and> visited st \<subseteq> visited r \<and> nid \<in> visited r"
  "visitEach es ns rest st = Inr r \<Longrightarrow> sortInv es ns st \<Longrightarrow>
     sortInv es ns r \<and> visited st \<subseteq> visited r \<and> source ` set rest \<subseteq> visited r"
proof (induction es ns nid st and es ns rest st arbitrary: r and r rule: visit_visitEach.induct)
  case (1 es ns nid st)
  from "1.prems"(1) show ?case
  proof (cases rule: visit_cases)
    case seen
    with "1.prems" show ?thesis by simp
  next
    case (fresh st')
    let ?st1 = "st\<lparr>visiting := insert nid (visiting st)\<rparr>"
    from "1.prems"(2) fresh(1) have inv1: "sortInv es ns ?st1"
      by (simp add: sortInv_def)
    from "1.IH"[OF fresh(1,2,3) inv1]
    have inv': "sortInv es ns st'" and mono: "visited st \<subseteq> visited st'"
      and srcs: "source ` set (incoming es nid) \<subseteq> visited st'"
      by simp_all
    from visiting_kept(2)[OF fresh(3)] have "nid \<in> visiting st'" by simp
    with inv' srcs have "sortInv es ns (markDone ns nid st')" by (intro markDone_inv)
    with fresh(4) mono show ?thesis by auto
  qed
next
  case (2 es ns st)
  then show ?case by simp
next
  case (3 es ns e rest st)
  from "3.prems"(1) obtain b where b: "visit es ns (source e) st = Inr b"
    and r: "visitEach es ns rest b = Inr r"
    by (rule visitEach_Cons_cases)
  from "3.IH"(1)[OF b "3.prems"(2)]
  have invb: "sortInv es ns b" and m1: "visited st \<subseteq> visited b" and s: "source e \<in> visited b"
    by simp_all
  from "3.IH"(2)[OF b r invb]
  have "sortInv es ns r" and m2: "visited b \<subseteq> visited r" and s2: "source ` set rest \<subseteq> visited r"
    by simp_all
  with m1 s show ?case by auto
qed

lemma visit_no_cycle:
  "acyclic (edgeRel es) \<Longrightarrow> \<forall>v\<in>visiting st. (nid, v) \<in> (edgeRel es)\<^sup>+ \<Longrightarrow>
     \<exists>r. visit es ns nid st = Inr r"
  "acyclic (edgeRel es) \<Longrightarrow> \<forall>e\<in>set rest. \<forall>v\<in>visiting st. (source e, v) \<in> (edgeRel es)\<^sup>+ \<Longrightarrow>
     \<exists>r. visitEach es ns rest st = Inr r"
proof (induction es ns nid st and es ns rest st rule: visit_visitEach.induct)
  case (1 es ns nid st)
  show ?case
  proof (cases "nid \<in> visited st")
    case True
    then show ?thesis by (simp add: visit.simps)
  next
    case False
    have nv: "nid \<notin> visiting st"
    proof
      assume "nid \<in> visiting st"
      with "1.prems"(2) have "(nid, nid) \<in> (edgeRel es)\<^sup>+" by blast
      with "1.prems"(1) show False by (simp add: acyclic_def)
    qed
    have "\<forall>e\<in>set (incoming es nid). \<forall>v\<in>visiting (st\<lparr>visiting := insert nid (visiting st)\<rparr>).
            (source e, v) \<in> (edgeRel es)\<^sup>+"
    proof (intro ballI)
      fix e v
      assume e: "e \<in> set (incoming es nid)"
        and v: "v \<in> visiting (st\<lparr>visiting := insert nid (visiting st)\<rparr>)"
      from e have step: "(source e, nid) \<in> edgeRel es"
        by (auto simp: incoming_def edgeRel_def)
      show "(source e, v) \<in> (edgeRel es)\<^sup>+"
      proof (cases "v = nid")
        case True
        with step show ?thesis by auto
      next
        case False
        with v have "v \<in> visiting st" by simp
        with "1.prems"(2) have "(nid, v) \<in> (edgeRel es)\<^sup>+" by blast
        with step show ?thesis by (meson trancl_into_trancl2)
      qed
    qed
    from "1.IH"[OF False nv "1.prems"(1) this]
    obtain st' where "visitEach es ns (incoming es nid) (st\<lparr>visiting := insert nid (visiting st)\<rparr>) = Inr st'"
      by blast
    with False nv show ?thesis by (simp add: visit.simps)
  qed
next
  case (2 es ns st)
  show ?case by simp
next
  case (3 es ns e rest st)
  from "3.prems" have "\<forall>v\<in>visiting st. (source e, v) \<in> (edgeRel es)\<^sup>+" by simp
  from "3.IH"(1)[OF "3.prems"(1) this] obtain b where b: "visit es ns (source e) st = Inr b"
    by blast
  from visiting_kept(1)[OF b] "3.prems"(2)
  have "\<forall>e\<in>set rest. \<forall>v\<in>visiting b. (source e, v) \<in> (edgeRel es)\<^sup>+" by simp
  from "3.IH"(2)[OF b "3.prems"(1) this] b show ?case by simp
qed


lemma visitAll_inv:
  "visitAll es ns ms st = Inr r \<Longrightarrow> sortInv es ns st \<Longrightarrow>
     sortInv es ns r \<and> visiting r = visiting st \<and> visited st \<subseteq> visited r
     \<and> node_id ` set ms \<subseteq> visited r"
proof (induction ms arbitrary: st)
  case Nil
  then show ?case by simp
next
  case (Cons m ms)
  from Cons.prems(1) obtain b where b: "visit es ns (node_id m) st = Inr b"
    and r: "visitAll es ns ms b = Inr r"
    by (auto split: sum.splits)
  from visit_inv(1)[OF b Cons.prems(2)] visiting_kept(1)[OF b]
  have invb: "sortInv es ns b" and m1: "visited st \<subseteq> visited b" and s: "node_id m \<in> visited b"
    and v: "visiting b = visiting st"
    by simp_all
  from Cons.IH[OF r invb] m1 s v show ?case by auto
qed

lemma visitAll_no_cycle:
  "acyclic (edgeRel es) \<Longrightarrow> visiting st = {} \<Longrightarrow> \<exists>r. visitAll es ns ms st = Inr r"
proof (induction ms arbitrary: st)
  case Nil
  show ?case by simp
next
  case (Cons m ms)
  from visit_no_cycle(1)[OF Cons.prems(1), of st "node_id m" ns] Cons.prems(2)
  obtain b where b: "visit es ns (node_id m) st = Inr b" by auto
  from visiting_kept(1)[OF b] Cons.prems(2) have "visiting b = {}" by simp
  from Cons.IH[OF Cons.prems(1) this] b show ?case by simp
qed

lemma sortInv_init: "sortInv es ns \<lparr>sorted = [], visited = {}, visiting = {}\<rparr>"
  by (simp add: sortInv_def respectsEdges_def)

lemma topoSort_Inr:
  assumes "topoSort es ns = Inr order"
  shows "distinct (map node_id order)" "node_id ` set order = node_id ` set ns"
    "set order \<subseteq> set ns" "respectsEdges es order"
    "\<forall>n\<in>set ns. \<forall>x. (x, node_id n) \<in> (edgeRel es)\<^sup>* \<longrightarrow> (x, x) \<notin> (edgeRel es)\<^sup>+"
proof -
  from assms obtain r where r: "visitAll es ns ns \<lparr>sorted = [], visited = {}, visiting = {}\<rparr> = Inr r"
    and o: "order = sorted r"
    by (auto simp: topoSort_def split: sum.splits)
  from visitAll_inv[OF r sortInv_init]
  have inv: "sortInv es ns r" and all: "node_id ` set ns \<subseteq> visited r" by simp_all
  from inv o show "distinct (map node_id order)" "set order \<subseteq> set ns" "respectsEdges es order"
    by (simp_all add: sortInv_def)
  from inv all o show "node_id ` set order = node_id ` set ns"
    by (auto simp: sortInv_def)
  from inv have closed: "\<forall>e\<in>set es. target e \<in> visited r \<longrightarrow> source e \<in> visited r"
    and nocyc: "\<forall>x\<in>visited r. (x, x) \<notin> (edgeRel es)\<^sup>+"
    by (simp_all add: sortInv_def)
  show "\<forall>n\<in>set ns. \<forall>x. (x, node_id n) \<in> (edgeRel es)\<^sup>* \<longrightarrow> (x, x) \<notin> (edgeRel es)\<^sup>+"
  proof (intro ballI allI impI)
    fix n x
    assume "n \<in> set ns" and p: "(x, node_id n) \<in> (edgeRel es)\<^sup>*"
    with all have "node_id n \<in> visited r" by auto
    with closed p have "x \<in> visited r" by (rule closed_rtrancl)
    with nocyc show "(x, x) \<notin> (edgeRel es)\<^sup>+" by simp
  qed
qed

lemma topoSort_exn: "topoSort es ns = Inl x \<Longrightarrow> x = CycleDetected"
  by (cases x) simp

text \<open>
  Claim C1. For an acyclic edge relation and nodes with distinct ids (the graph model's
  invariant), the depth-first sort of \<^verbatim>\<open>executeWorkflow\<close> does not throw; the order it
  returns holds every node of the graph exactly once, and for every edge the node with
  the edge's source id stands at a strictly smaller index than the node with its target
  id.
\<close>

theorem topoSort_order:
  assumes acyc: "acyclic (edgeRel es)" and ids: "distinct (map node_id ns)"
  shows "\<exists>order. topoSort es ns = Inr order
           \<and> distinct order \<and> set order = set ns \<and> length order = length ns
           \<and> (\<forall>e\<in>set es. \<forall>i<length order. \<forall>j<length order.
                 node_id (order ! i) = source e \<and> node_id (order ! j) = target e \<longrightarrow> i < j)"
proof -
  from visitAll_no_cycle[OF acyc, of "\<lparr>sorted = [], visited = {}, visiting = {}\<rparr>" ns ns]
  obtain r where "visitAll es ns ns \<lparr>sorted = [], visited = {}, visiting = {}\<rparr> = Inr r" by auto
  then have t: "topoSort es ns = Inr (sorted r)" by (simp add: topoSort_def)
  note f = topoSort_Inr[OF t]
  let ?o = "sorted r"
  from f(1) have d: "distinct ?o" by (simp add: distinct_map)
  have s: "set ?o = set ns"
  proof
    show "set ?o \<subseteq> set ns" by (rule f(3))
    show "set ns \<subseteq> set ?o"
    proof
      fix m assume m: "m \<in> set ns"
      with f(2) obtain n where n: "n \<in> set ?o" "node_id n = node_id m" by (metis imageE imageI)
      with f(3) have "n \<in> set ns" by auto
      with ids m n(2) have "n = m" by (meson distinct_map inj_onD)
      with n show "m \<in> set ?o" by simp
    qed
  qed
  from ids have "distinct ns" by (simp add: distinct_map)
  with d s have l: "length ?o = length ns" by (metis distinct_card)
  from f(4) t d s l show ?thesis by (simp add: respectsEdges_def)
qed


theorem topoSort_order_witness:
  "acyclic (edgeRel (edges exBackwardStore))
   \<and> distinct (map node_id (nodes exBackwardStore))
   \<and> map node_id (nodes exBackwardStore)
       = [''output-4'', ''nanoBanana-3'', ''prompt-2'', ''imageInput-1'']
   \<and> map_sum id (map node_id) (topoSort (edges exBackwardStore) (nodes exBackwardStore))
       = Inr [''prompt-2'', ''imageInput-1'', ''nanoBanana-3'', ''output-4'']
   \<and> (\<exists>order. topoSort (edges exBackwardStore) (nodes exBackwardStore) = Inr order
         \<and> distinct order \<and> set order = set (nodes exBackwardStore)
         \<and> length order = length (nodes exBackwardStore)
         \<and> (\<forall>e\<in>set (edges exBackwardStore). \<forall>i<length order. \<forall>j<length order.
               node_id (order ! i) = source e \<and> node_id (order ! j) = target e \<longrightarrow> i < j))"
proof -
  have acyc: "acyclic (edgeRel (edges exBackwardStore))"
    by code_simp
  have ids: "distinct (map node_id (nodes exBackwardStore))"
    by (simp add: exBackwardStore_def initialStore_def newNode_def)
  have names: "map node_id (nodes exBackwardStore)
       = [''output-4'', ''nanoBanana-3'', ''prompt-2'', ''imageInput-1'']"
    by (simp add: exBackwardStore_def initialStore_def newNode_def)
  have ev: "map_sum id (map node_id) (topoSort (edges exBackwardStore) (nodes exBackwardStore))
       = Inr [''prompt-2'', ''imageInput-1'', ''nanoBanana-3'', ''output-4'']"
    by code_simp
  from topoSort_order[OF acyc ids] acyc ids names ev show ?thesis by simp
qed

text \<open>
  Claim C2. If some edge cycle leads to a node of the graph (in a graph whose edges join
  existing nodes: if the graph has a cycle at all), then the sort throws, and a call of
  \<^verbatim>\<open>executeWorkflow\<close> that starts a run ends in the catch branch: no node is executed,
  the node list, hence every status, and the list of service requests are what they
  were, and the run is over.
\<close>

theorem cycle_aborts_run:
  assumes idle: "\<not> isRunning st"
    and cyc: "(x, x) \<in> (edgeRel (edges st))\<^sup>+"
    and reach: "(x, node_id n) \<in> (edgeRel (edges st))\<^sup>*"
    and n: "n \<in> set (nodes st)"
  shows "topoSort (edges st) (nodes st) = Inl CycleDetected
       \<and> executeWorkflow env startFrom st
           = st\<lparr>isRunning := False, pausedAtNodeId := None, currentNodeId := None\<rparr>
       \<and> nodes (executeWorkflow env startFrom st) = nodes st
       \<and> calls (executeWorkflow env startFrom st) = calls st
       \<and> \<not> isRunning (executeWorkflow env startFrom st)"
proof -
  have t: "topoSort (edges st) (nodes st) = Inl CycleDetected"
  proof (cases "topoSort (edges st) (nodes st)")
    case (Inl a)
    then show ?thesis by (simp add: topoSort_exn)
  next
    case (Inr order)
    from topoSort_Inr(5)[OF Inr] n reach have "(x, x) \<notin> (edgeRel (edges st))\<^sup>+" by blast
    with cyc show ?thesis by simp
  qed
  then have "executeWorkflow env startFrom st
           = st\<lparr>isRunning := False, pausedAtNodeId := None, currentNodeId := None\<rparr>"
    using idle by (simp add: executeWorkflow_def Let_def finish_def)
  with t show ?thesis by simp
qed

theorem cycle_aborts_run_witness:
  "\<not> isRunning exCycleStore
   \<and> (''annotation-2'', ''annotation-2'') \<in> (edgeRel (edges exCycleStore))\<^sup>+
   \<and> map node_id (nodes exCycleStore) ! 1 = ''annotation-2''
   \<and> topoSort (edges exCycleStore) (nodes exCycleStore) = Inl CycleDetected
   \<and> nodes (executeWorkflow exEnv None exCycleStore) = nodes exCycleStore
   \<and> calls (executeWorkflow exEnv None exCycleStore) = []
   \<and> \<not> isRunning (executeWorkflow exEnv None exCycleStore)"
proof -
  have idle: "\<not> isRunning exCycleStore"
    by (simp add: exCycleStore_def initialStore_def)
  have e1: "(''annotation-2'', ''annotation-3'') \<in> edgeRel (edges exCycleStore)"
    and e2: "(''annotation-3'', ''annotation-2'') \<in> edgeRel (edges exCycleStore)"
    by (simp_all add: edgeRel_def exCycleStore_def initialStore_def newEdge_def)
  from e1 e2 have cyc: "(''annotation-2'', ''annotation-2'') \<in> (edgeRel (edges exCycleStore))\<^sup>+"
    by (meson r_into_trancl' trancl_trans)
  have n: "newNode Annotation ''annotation-2'' \<in> set (nodes exCycleStore)"
    by (simp add: exCycleStore_def initialStore_def)
  have reach: "(''annotation-2'', node_id (newNode Annotation ''annotation-2''))
      \<in> (edgeRel (edges exCycleStore))\<^sup>*"
    by (simp add: newNode_def)
  have nm: "map node_id (nodes exCycleStore) ! 1 = ''annotation-2''"
    by (simp add: exCycleStore_def initialStore_def newNode_def)
  have c: "calls exCycleStore = []"
    by (simp add: exCycleStore_def initialStore_def)
  from cycle_aborts_run[OF idle cyc reach n, of exEnv None] idle cyc nm c show ?thesis by simp
qed

section \<open>Pause and resume\<close>

lemma findIndex_Some:
  "findIndex P xs = Some i \<Longrightarrow> i < length xs \<and> P (xs ! i)"
proof (induction xs arbitrary: i)
  case Nil
  then show ?case by simp
next
  case (Cons x xs)
  show ?case
  proof (cases "P x")
    case True
    with Cons.prems show ?thesis by simp
  next
    case False
    with Cons.prems obtain j where j: "findIndex P xs = Some j" "i = Suc j" by auto
    from Cons.IH[OF j(1)] j(2) show ?thesis by simp
  qed
qed

lemma findIndex_complete:
  "\<exists>y\<in>set xs. P y \<Longrightarrow> \<exists>i. findIndex P xs = Some i"
  by (induction xs) auto

lemma resume_enters_node:
  assumes idle: "\<not> isRunning s0" and paused: "pausedAtNodeId s0 = Some x"
    and order: "topoSort (edges s0) (nodes s0) = Inr order"
    and found: "findIndex (\<lambda>n. node_id n = x) order = Some i" and named: "x \<noteq> []"
    and nostop: "\<not> stopRequested env i"
  shows "executeWorkflow env (Some x) s0 =
           (if nodeGroupLocked (groups s0) (order ! i)
            then execFrom env \<lparr>snapEdges = edges s0, snapGroups = groups s0,
                               isResuming = True, startFromNodeId = Some x\<rparr>
                   (Suc i) (drop (Suc i) order) (s0\<lparr>isRunning := True, pausedAtNodeId := None\<rparr>)
            else (case execNode env (order ! i)
                         (s0\<lparr>isRunning := True, pausedAtNodeId := None, currentNodeId := Some x\<rparr>) of
                    Return st' \<Rightarrow> st'
                  | Continue st' \<Rightarrow>
                      execFrom env \<lparr>snapEdges = edges s0, snapGroups = groups s0,
                                     isResuming = True, startFromNodeId = Some x\<rparr>
                        (Suc i) (drop (Suc i) order) st'))"
proof -
  let ?ctx = "\<lparr>snapEdges = edges s0, snapGroups = groups s0,
                isResuming = True, startFromNodeId = Some x\<rparr>"
  let ?st1 = "s0\<lparr>isRunning := True, pausedAtNodeId := None\<rparr>"
  from findIndex_Some[OF found] have i: "i < length order" and x: "node_id (order ! i) = x"
    by simp_all
  from i have d: "drop i order = order ! i # drop (Suc i) order"
    by (simp add: Cons_nth_drop_Suc)
  have si: "startIndex (Some x) order = i"
    using found named by (simp add: startIndex_def)
  have e: "executeWorkflow env (Some x) s0 = execFrom env ?ctx i (order ! i # drop (Suc i) order) ?st1"
    using idle paused order si d by (simp add: executeWorkflow_def Let_def)
  have r: "isResumingThisNode ?ctx (order ! i)"
    using x by (simp add: isResumingThisNode_def)
  show ?thesis
    unfolding e using r nostop x
    by (simp add: execFrom_Cons Let_def)
qed

text \<open>
  A resume that names a node of an acyclic graph: the sort returns an order, the node
  has exactly one position in it, and the run enters the order there.
\<close>

lemma resume_at_named_node:
  assumes idle: "\<not> isRunning s0" and paused: "pausedAtNodeId s0 = Some x" and named: "x \<noteq> []"
    and node: "x \<in> node_id ` set (nodes s0)"
    and acyc: "acyclic (edgeRel (edges s0))"
  shows "\<exists>order k. topoSort (edges s0) (nodes s0) = Inr order
           \<and> k < length order \<and> node_id (order ! k) = x \<and> order ! k \<in> set (nodes s0)
           \<and> (\<forall>j<length order. node_id (order ! j) = x \<longrightarrow> j = k)
           \<and> (\<not> stopRequested env k \<and> \<not> nodeGroupLocked (groups s0) (order ! k) \<longrightarrow>
                executeWorkflow env (Some x) s0 =
                  (case execNode env (order ! k)
                          (s0\<lparr>isRunning := True, pausedAtNodeId := None, currentNodeId := Some x\<rparr>) of
                     Return st' \<Rightarrow> st'
                   | Continue st' \<Rightarrow>
                       execFrom env \<lparr>snapEdges = edges s0, snapGroups = groups s0,
                                      isResuming = True, startFromNodeId = Some x\<rparr>
                         (Suc k) (drop (Suc k) order) st'))"
proof -
  from visitAll_no_cycle[OF acyc, of "\<lparr>sorted = [], visited = {}, visiting = {}\<rparr>"
      "nodes s0" "nodes s0"]
  obtain r where "visitAll (edges s0) (nodes s0) (nodes s0)
      \<lparr>sorted = [], visited = {}, visiting = {}\<rparr> = Inr r" by auto
  then obtain order where t: "topoSort (edges s0) (nodes s0) = Inr order"
    by (simp add: topoSort_def)
  note f = topoSort_Inr[OF t]
  from node f(2) have "x \<in> node_id ` set order" by simp
  then have "\<exists>n\<in>set order. node_id n = x" by (auto simp: image_iff)
  from findIndex_complete[of order "\<lambda>n. node_id n = x", OF this]
  obtain k where k: "findIndex (\<lambda>n. node_id n = x) order = Some k" by auto
  from findIndex_Some[OF k] have kl: "k < length order" and kx: "node_id (order ! k) = x"
    by simp_all
  from kl f(3) have mem: "order ! k \<in> set (nodes s0)" by (meson nth_mem subsetD)
  have uniq: "\<forall>j<length order. node_id (order ! j) = x \<longrightarrow> j = k"
  proof (intro allI impI)
    fix j assume j: "j < length order" and jx: "node_id (order ! j) = x"
    from j kl jx kx have e: "map node_id order ! j = map node_id order ! k" by simp
    from f(1) j kl have "(map node_id order ! j = map node_id order ! k) = (j = k)"
      by (intro nth_eq_iff_index_eq) simp_all
    with e show "j = k" by simp
  qed
  have run: "\<not> stopRequested env k \<and> \<not> nodeGroupLocked (groups s0) (order ! k) \<longrightarrow>
                executeWorkflow env (Some x) s0 =
                  (case execNode env (order ! k)
                          (s0\<lparr>isRunning := True, pausedAtNodeId := None, currentNodeId := Some x\<rparr>) of
                     Return st' \<Rightarrow> st'
                   | Continue st' \<Rightarrow>
                       execFrom env \<lparr>snapEdges = edges s0, snapGroups = groups s0,
                                      isResuming = True, startFromNodeId = Some x\<rparr>
                         (Suc k) (drop (Suc k) order) st')"
  proof
    assume h: "\<not> stopRequested env k \<and> \<not> nodeGroupLocked (groups s0) (order ! k)"
    then have ns: "\<not> stopRequested env k" by simp
    from resume_enters_node[OF idle paused t k named ns] h show "executeWorkflow env (Some x) s0 =
                  (case execNode env (order ! k)
                          (s0\<lparr>isRunning := True, pausedAtNodeId := None, currentNodeId := Some x\<rparr>) of
                     Return st' \<Rightarrow> st'
                   | Continue st' \<Rightarrow>
                       execFrom env \<lparr>snapEdges = edges s0, snapGroups = groups s0,
                                      isResuming = True, startFromNodeId = Some x\<rparr>
                         (Suc k) (drop (Suc k) order) st')"
      by simp
  qed
  from t kl kx mem uniq run show ?thesis by blast
qed

text \<open>
  Claim C6. While the run is on, a node with an incoming edge whose pause flag is set is
  not executed unless it is the entry node of a resume: the run stops before it with
  \<open>pausedAtNodeId\<close> set to the node, \<open>isRunning\<close> cleared and nothing else changed. For
  the node whose id is the entry of a resuming run, and for no other, the loop skips
  the pause check: unless the node is in a locked group, it is handed to the executor
  whatever its edges say. A call of \<^verbatim>\<open>executeWorkflow\<close> that names the recorded pause
  point, a node of an acyclic graph, is such a run: the sort returns an order in which
  the named node has exactly one position, and unless a stop is seen there or the node
  is in a locked group, the run enters the order at that position and executes the
  node without looking at its edges, passing over every node before it.
\<close>

theorem pause_edge_then_resume:
  "(isRunning st \<and> \<not> stopRequested env i
      \<and> \<not> (isResuming ctx \<and> startFromNodeId ctx = Some (node_id node))
      \<and> (\<exists>e\<in>set (snapEdges ctx). target e = node_id node \<and> hasPause e) \<longrightarrow>
        execFrom env ctx i (node # rest) st =
          st\<lparr>pausedAtNodeId := Some (node_id node), isRunning := False, currentNodeId := None\<rparr>)
   \<and> (isRunning st \<and> \<not> stopRequested env i
        \<and> isResuming ctx \<and> startFromNodeId ctx = Some (node_id node)
        \<and> \<not> nodeGroupLocked (snapGroups ctx) node \<longrightarrow>
        execFrom env ctx i (node # rest) st =
          (case execNode env node (st\<lparr>currentNodeId := Some (node_id node)\<rparr>) of
             Return st' \<Rightarrow> st'
           | Continue st' \<Rightarrow> execFrom env ctx (Suc i) rest st'))
   \<and> (\<not> isRunning sp \<and> pausedAtNodeId sp = Some x \<and> x \<noteq> []
        \<and> x \<in> node_id ` set (nodes sp) \<and> acyclic (edgeRel (edges sp)) \<longrightarrow>
        (\<exists>order k. topoSort (edges sp) (nodes sp) = Inr order
           \<and> k < length order \<and> node_id (order ! k) = x \<and> order ! k \<in> set (nodes sp)
           \<and> (\<forall>j<length order. node_id (order ! j) = x \<longrightarrow> j = k)
           \<and> (\<not> stopRequested env k \<and> \<not> nodeGroupLocked (groups sp) (order ! k) \<longrightarrow>
                executeWorkflow env (Some x) sp =
                  (case execNode env (order ! k)
                          (sp\<lparr>isRunning := True, pausedAtNodeId := None, currentNodeId := Some x\<rparr>) of
                     Return st' \<Rightarrow> st'
                   | Continue st' \<Rightarrow>
                       execFrom env \<lparr>snapEdges = edges sp, snapGroups = groups sp,
                                      isResuming = True, startFromNodeId = Some x\<rparr>
                         (Suc k) (drop (Suc k) order) st'))))"
proof (intro conjI impI)
  assume h: "isRunning st \<and> \<not> stopRequested env i
      \<and> \<not> (isResuming ctx \<and> startFromNodeId ctx = Some (node_id node))
      \<and> (\<exists>e\<in>set (snapEdges ctx). target e = node_id node \<and> hasPause e)"
  then have "find hasPause (incoming (snapEdges ctx) (node_id node)) \<noteq> None"
    by (auto simp: find_None_iff incoming_def)
  with h show "execFrom env ctx i (node # rest) st =
      st\<lparr>pausedAtNodeId := Some (node_id node), isRunning := False, currentNodeId := None\<rparr>"
    by (simp add: execFrom_Cons Let_def isResumingThisNode_def pauseAt_def)
next
  assume "isRunning st \<and> \<not> stopRequested env i
        \<and> isResuming ctx \<and> startFromNodeId ctx = Some (node_id node)
        \<and> \<not> nodeGroupLocked (snapGroups ctx) node"
  then show "execFrom env ctx i (node # rest) st =
      (case execNode env node (st\<lparr>currentNodeId := Some (node_id node)\<rparr>) of
         Return st' \<Rightarrow> st'
       | Continue st' \<Rightarrow> execFrom env ctx (Suc i) rest st')"
    by (simp add: execFrom_Cons Let_def isResumingThisNode_def)
next
  assume h: "\<not> isRunning sp \<and> pausedAtNodeId sp = Some x \<and> x \<noteq> []
        \<and> x \<in> node_id ` set (nodes sp) \<and> acyclic (edgeRel (edges sp))"
  then have idle: "\<not> isRunning sp" and paused: "pausedAtNodeId sp = Some x" and named: "x \<noteq> []"
    and node: "x \<in> node_id ` set (nodes sp)" and acyc: "acyclic (edgeRel (edges sp))"
    by simp_all
  show "\<exists>order k. topoSort (edges sp) (nodes sp) = Inr order
           \<and> k < length order \<and> node_id (order ! k) = x \<and> order ! k \<in> set (nodes sp)
           \<and> (\<forall>j<length order. node_id (order ! j) = x \<longrightarrow> j = k)
           \<and> (\<not> stopRequested env k \<and> \<not> nodeGroupLocked (groups sp) (order ! k) \<longrightarrow>
                executeWorkflow env (Some x) sp =
                  (case execNode env (order ! k)
                          (sp\<lparr>isRunning := True, pausedAtNodeId := None, currentNodeId := Some x\<rparr>) of
                     Return st' \<Rightarrow> st'
                   | Continue st' \<Rightarrow>
                       execFrom env \<lparr>snapEdges = edges sp, snapGroups = groups sp,
                                      isResuming = True, startFromNodeId = Some x\<rparr>
                         (Suc k) (drop (Suc k) order) st'))"
    by (rule resume_at_named_node[OF idle paused named node acyc])
qed

theorem pause_edge_then_resume_witness:
  "isRunning (exPauseStore\<lparr>isRunning := True\<rparr>)
   \<and> map hasPause (incoming (edges exPauseStore) (node_id exPauseGen)) = [False, True]
   \<and> execFrom exEnv (exPauseCtx False None) 2 [exPauseGen] (exPauseStore\<lparr>isRunning := True\<rparr>)
       = exPauseStore\<lparr>pausedAtNodeId := Some ''nanoBanana-3''\<rparr>
   \<and> map (status \<circ> data)
        (nodes (execFrom exEnv (exPauseCtx True (Some ''nanoBanana-3'')) 2 [exPauseGen]
                  (exPauseStore\<lparr>isRunning := True\<rparr>)))
       = [None, None, Some Complete]
   \<and> pausedAtNodeId (executeWorkflow exEnv None exPauseStore) = Some ''nanoBanana-3''
   \<and> calls (executeWorkflow exEnv None exPauseStore) = []
   \<and> map node_id (nodes exPauseStore) ! 2 = ''nanoBanana-3''
   \<and> length (calls (executeWorkflow exEnv (Some ''nanoBanana-3'')
                      (executeWorkflow exEnv None exPauseStore))) = 1
   \<and> map (status \<circ> data)
        (nodes (executeWorkflow exEnv (Some ''nanoBanana-3'')
                  (executeWorkflow exEnv None exPauseStore)))
       = [None, None, Some Complete]
   \<and> \<not> isRunning exPausedChain
   \<and> pausedAtNodeId exPausedChain = Some ''llmGenerate-3''
   \<and> map node_id (nodes exPausedChain) = [''prompt-1'', ''llmGenerate-2'', ''llmGenerate-3'']
   \<and> map hasPause (edges exPausedChain) = [True, True]
   \<and> acyclic (edgeRel (edges exPausedChain))
   \<and> map (status \<circ> data) (nodes exPausedChain) = [None, Some Complete, Some Idle]
   \<and> executeWorkflow exEnv (Some ''llmGenerate-3'') exPausedChain =
       (case execNode exEnv (nodes exPausedChain ! 2)
               (exPausedChain\<lparr>isRunning := True, pausedAtNodeId := None,
                               currentNodeId := Some ''llmGenerate-3''\<rparr>) of
          Return st' \<Rightarrow> st'
        | Continue st' \<Rightarrow>
            execFrom exEnv \<lparr>snapEdges = edges exPausedChain, snapGroups = groups exPausedChain,
                             isResuming = True, startFromNodeId = Some ''llmGenerate-3''\<rparr>
              (Suc 2) (drop (Suc 2) (nodes exPausedChain)) st')
   \<and> map (status \<circ> data) (nodes (executeWorkflow exEnv (Some ''llmGenerate-3'') exPausedChain))
       = [None, Some Complete, Some Complete]
   \<and> pausedAtNodeId (executeWorkflow exEnv (Some ''llmGenerate-3'') exPausedChain) = None"
proof -
  note inst = pause_edge_then_resume[where st = "exPauseStore\<lparr>isRunning := True\<rparr>"
      and env = exEnv and i = 2 and ctx = "exPauseCtx True (Some ''nanoBanana-3'')"
      and node = exPauseGen and rest = "[]" and sp = exPausedChain and x = "''llmGenerate-3''"]
  have c1: "\<not> isRunning exPausedChain"
    and c2: "pausedAtNodeId exPausedChain = Some ''llmGenerate-3''"
    and c3: "map node_id (nodes exPausedChain) = [''prompt-1'', ''llmGenerate-2'', ''llmGenerate-3'']"
    and c4: "acyclic (edgeRel (edges exPausedChain))"
    and c5: "topoSort (edges exPausedChain) (nodes exPausedChain) = Inr (nodes exPausedChain)"
    and c6: "map groupId (nodes exPausedChain) = [None, None, None]"
    and c7: "map (status \<circ> data) (nodes exPausedChain) = [None, Some Complete, Some Idle]"
    and c8: "map (status \<circ> data) (nodes (executeWorkflow exEnv (Some ''llmGenerate-3'') exPausedChain))
       = [None, Some Complete, Some Complete]"
    and c9: "pausedAtNodeId (executeWorkflow exEnv (Some ''llmGenerate-3'') exPausedChain) = None"
    and c10: "map hasPause (edges exPausedChain) = [True, True]"
    by code_simp+
  have node: "''llmGenerate-3'' \<in> node_id ` set (nodes exPausedChain)"
  proof -
    have "''llmGenerate-3'' \<in> set (map node_id (nodes exPausedChain))"
      unfolding c3 by simp
    then show ?thesis by simp
  qed
  from c1 c2 node c4
  have hyp: "\<not> isRunning exPausedChain \<and> pausedAtNodeId exPausedChain = Some ''llmGenerate-3''
      \<and> ''llmGenerate-3'' \<noteq> []
      \<and> ''llmGenerate-3'' \<in> node_id ` set (nodes exPausedChain)
      \<and> acyclic (edgeRel (edges exPausedChain))"
    by simp
  from mp[OF inst[THEN conjunct2, THEN conjunct2] hyp]
  obtain order k where t: "topoSort (edges exPausedChain) (nodes exPausedChain) = Inr order"
    and kl: "k < length order" and kx: "node_id (order ! k) = ''llmGenerate-3''"
    and run: "\<not> stopRequested exEnv k \<and> \<not> nodeGroupLocked (groups exPausedChain) (order ! k) \<longrightarrow>
                executeWorkflow exEnv (Some ''llmGenerate-3'') exPausedChain =
                  (case execNode exEnv (order ! k)
                          (exPausedChain\<lparr>isRunning := True, pausedAtNodeId := None,
                                          currentNodeId := Some ''llmGenerate-3''\<rparr>) of
                     Return st' \<Rightarrow> st'
                   | Continue st' \<Rightarrow>
                       execFrom exEnv \<lparr>snapEdges = edges exPausedChain,
                                        snapGroups = groups exPausedChain,
                                        isResuming = True,
                                        startFromNodeId = Some ''llmGenerate-3''\<rparr>
                         (Suc k) (drop (Suc k) order) st')"
    by blast
  from t c5 have o: "order = nodes exPausedChain" by simp
  from c3 have len: "length (nodes exPausedChain) = 3"
    by (metis length_map length_Cons list.size(3) numeral_3_eq_3)
  have k2: "k = 2"
  proof -
    from kl o len have "k = 0 \<or> k = 1 \<or> k = 2" by auto
    moreover from kl kx o have "map node_id (nodes exPausedChain) ! k = ''llmGenerate-3''"
      by simp
    ultimately show ?thesis unfolding c3 by auto
  qed
  have "map groupId (nodes exPausedChain) ! 2 = None" unfolding c6 by simp
  with len have "groupId (nodes exPausedChain ! 2) = None" by simp
  then have unl: "\<not> nodeGroupLocked (groups exPausedChain) (nodes exPausedChain ! 2)"
    by (simp add: nodeGroupLocked_def)
  have ns: "\<not> stopRequested exEnv 2" by (simp add: exEnv_def)
  from run ns unl have entered: "executeWorkflow exEnv (Some ''llmGenerate-3'') exPausedChain =
       (case execNode exEnv (nodes exPausedChain ! 2)
               (exPausedChain\<lparr>isRunning := True, pausedAtNodeId := None,
                               currentNodeId := Some ''llmGenerate-3''\<rparr>) of
          Return st' \<Rightarrow> st'
        | Continue st' \<Rightarrow>
            execFrom exEnv \<lparr>snapEdges = edges exPausedChain, snapGroups = groups exPausedChain,
                             isResuming = True, startFromNodeId = Some ''llmGenerate-3''\<rparr>
              (Suc 2) (drop (Suc 2) (nodes exPausedChain)) st')"
    unfolding k2 o by blast
  note chain = c1 c2 c3 c10 c4 c7 entered c8 c9
  have running: "isRunning (exPauseStore\<lparr>isRunning := True\<rparr>)" "\<not> stopRequested exEnv 2"
    by (simp_all add: exEnv_def)
  have flags: "map hasPause (incoming (edges exPauseStore) (node_id exPauseGen)) = [False, True]"
    by (simp add: incoming_def exPauseStore_def initialStore_def exPauseGen_def newNode_def
        newEdge_def)
  have ex: "\<exists>e\<in>set (snapEdges (exPauseCtx False None)). target e = node_id exPauseGen \<and> hasPause e"
    by (simp add: exPauseCtx_def exPauseStore_def initialStore_def exPauseGen_def newNode_def
        newEdge_def)
  have nr: "\<not> (isResuming (exPauseCtx False None)
               \<and> startFromNodeId (exPauseCtx False None) = Some (node_id exPauseGen))"
    by (simp add: exPauseCtx_def)
  have a: "execFrom exEnv (exPauseCtx False None) 2 [exPauseGen] (exPauseStore\<lparr>isRunning := True\<rparr>)
       = exPauseStore\<lparr>pausedAtNodeId := Some ''nanoBanana-3''\<rparr>"
    using pause_edge_then_resume[where st = "exPauseStore\<lparr>isRunning := True\<rparr>" and env = exEnv
        and i = 2 and ctx = "exPauseCtx False None" and node = exPauseGen and rest = "[]"]
      running nr ex
    by (simp add: exPauseStore_def initialStore_def exPauseGen_def newNode_def)
  have re: "isResuming (exPauseCtx True (Some ''nanoBanana-3''))
      \<and> startFromNodeId (exPauseCtx True (Some ''nanoBanana-3'')) = Some (node_id exPauseGen)"
    by (simp add: exPauseCtx_def exPauseGen_def newNode_def)
  have un: "\<not> nodeGroupLocked (snapGroups (exPauseCtx True (Some ''nanoBanana-3''))) exPauseGen"
    by (simp add: nodeGroupLocked_def exPauseGen_def newNode_def)
  have b: "execFrom exEnv (exPauseCtx True (Some ''nanoBanana-3'')) 2 [exPauseGen]
             (exPauseStore\<lparr>isRunning := True\<rparr>) =
           (case execNode exEnv exPauseGen
                   (exPauseStore\<lparr>isRunning := True,
                                  currentNodeId := Some (node_id exPauseGen)\<rparr>) of
              Return st' \<Rightarrow> st'
            | Continue st' \<Rightarrow>
                execFrom exEnv (exPauseCtx True (Some ''nanoBanana-3'')) (Suc 2) [] st')"
    using pause_edge_then_resume[where st = "exPauseStore\<lparr>isRunning := True\<rparr>" and env = exEnv
        and i = 2 and ctx = "exPauseCtx True (Some ''nanoBanana-3'')" and node = exPauseGen
        and rest = "[]"]
      running re un
    by simp
  have ev: "map (status \<circ> data) (nodes
           (case execNode exEnv exPauseGen
                   (exPauseStore\<lparr>isRunning := True,
                                  currentNodeId := Some (node_id exPauseGen)\<rparr>) of
              Return st' \<Rightarrow> st'
            | Continue st' \<Rightarrow>
                execFrom exEnv (exPauseCtx True (Some ''nanoBanana-3'')) (Suc 2) [] st'))
        = [None, None, Some Complete]"
    by code_simp
  have third: "map node_id (nodes exPauseStore) ! 2 = ''nanoBanana-3''"
    by (simp add: exPauseStore_def initialStore_def newNode_def)
  have whole: "pausedAtNodeId (executeWorkflow exEnv None exPauseStore) = Some ''nanoBanana-3''
   \<and> calls (executeWorkflow exEnv None exPauseStore) = []
   \<and> length (calls (executeWorkflow exEnv (Some ''nanoBanana-3'')
                      (executeWorkflow exEnv None exPauseStore))) = 1
   \<and> map (status \<circ> data)
        (nodes (executeWorkflow exEnv (Some ''nanoBanana-3'')
                  (executeWorkflow exEnv None exPauseStore)))
       = [None, None, Some Complete]"
    by code_simp
  from running flags a ev third whole
  have first: "isRunning (exPauseStore\<lparr>isRunning := True\<rparr>)
   \<and> map hasPause (incoming (edges exPauseStore) (node_id exPauseGen)) = [False, True]
   \<and> execFrom exEnv (exPauseCtx False None) 2 [exPauseGen] (exPauseStore\<lparr>isRunning := True\<rparr>)
       = exPauseStore\<lparr>pausedAtNodeId := Some ''nanoBanana-3''\<rparr>
   \<and> map (status \<circ> data)
        (nodes (execFrom exEnv (exPauseCtx True (Some ''nanoBanana-3'')) 2 [exPauseGen]
                  (exPauseStore\<lparr>isRunning := True\<rparr>)))
       = [None, None, Some Complete]
   \<and> pausedAtNodeId (executeWorkflow exEnv None exPauseStore) = Some ''nanoBanana-3''
   \<and> calls (executeWorkflow exEnv None exPauseStore) = []
   \<and> map node_id (nodes exPauseStore) ! 2 = ''nanoBanana-3''
   \<and> length (calls (executeWorkflow exEnv (Some ''nanoBanana-3'')
                      (executeWorkflow exEnv None exPauseStore))) = 1
   \<and> map (status \<circ> data)
        (nodes (executeWorkflow exEnv (Some ''nanoBanana-3'')
                  (executeWorkflow exEnv None exPauseStore)))
       = [None, None, Some Complete]"
    unfolding b by simp
  from first chain show ?thesis by blast
qed

section \<open>Which nodes a step writes\<close>

lemma stepState_simps [simp]: "stepState (Continue s) = s" "stepState (Return s) = s"
  by (simp_all add: stepState_def)

lemma find_update_other:
  "i \<noteq> j \<Longrightarrow>
   find (\<lambda>n. node_id n = i) (map (\<lambda>n. if node_id n = j then n\<lparr>data := f (data n)\<rparr> else n) ns)
     = find (\<lambda>n. node_id n = i) ns"
  by (induction ns) auto

lemma find_update_same:
  "find (\<lambda>n. node_id n = j) (map (\<lambda>n. if node_id n = j then n\<lparr>data := f (data n)\<rparr> else n) ns)
     = map_option (\<lambda>n. n\<lparr>data := f (data n)\<rparr>) (find (\<lambda>n. node_id n = j) ns)"
  by (induction ns) auto

lemma getNodeById_updateNodeData_other [simp]:
  "i \<noteq> j \<Longrightarrow> getNodeById (updateNodeData j f st) i = getNodeById st i"
  by (simp add: getNodeById_def updateNodeData_def find_update_other)

lemma getNodeById_updateNodeData_same [simp]:
  "getNodeById (updateNodeData j f st) j = map_option (\<lambda>n. n\<lparr>data := f (data n)\<rparr>) (getNodeById st j)"
  by (simp add: getNodeById_def updateNodeData_def find_update_same)

lemma getNodeById_fields [simp]:
  "getNodeById (st\<lparr>isRunning := b\<rparr>) i = getNodeById st i"
  "getNodeById (st\<lparr>currentNodeId := c\<rparr>) i = getNodeById st i"
  "getNodeById (st\<lparr>pausedAtNodeId := p\<rparr>) i = getNodeById st i"
  "getNodeById (st\<lparr>calls := cs\<rparr>) i = getNodeById st i"
  "getNodeById (addToGlobalHistory g st) i = getNodeById st i"
  "getNodeById (autoSaveGeneration img t imageId st) i = getNodeById st i"
  "getNodeById (stopWorkflow st) i = getNodeById st i"
  "getNodeById (finish st) i = getNodeById st i"
  "getNodeById (pauseAt n st) i = getNodeById st i"
  by (simp_all add: getNodeById_def addToGlobalHistory_def autoSaveGeneration_def stopWorkflow_def
      finish_def pauseAt_def split: option.splits)

lemma getNodeById_addIncurredCost [simp]:
  "getNodeById (addIncurredCost x st) i = getNodeById st i"
  by (simp add: getNodeById_def addIncurredCost_def)

lemma updateNodeData_fields [simp]:
  "incurredCost (updateNodeData j f st) = incurredCost st"
  "calls (updateNodeData j f st) = calls st"
  by (simp_all add: updateNodeData_def)

lemma addToGlobalHistory_fields [simp]:
  "incurredCost (addToGlobalHistory g st) = incurredCost st"
  "calls (addToGlobalHistory g st) = calls st"
  by (simp_all add: addToGlobalHistory_def)

lemma autoSaveGeneration_cost [simp]:
  "incurredCost (autoSaveGeneration img t imageId st) = incurredCost st"
  by (simp add: autoSaveGeneration_def split: option.splits)

lemma addIncurredCost_cost [simp]:
  "incurredCost (addIncurredCost x st) = incurredCost st + x"
  by (simp add: addIncurredCost_def)

lemma failNode_frame:
  "i \<noteq> j \<Longrightarrow> getNodeById (stepState (failNode j msg st)) i = getNodeById st i"
  by (simp add: failNode_def)

lemma storeGeneration_frame:
  "i \<noteq> node_id node \<Longrightarrow> getNodeById (storeGeneration env node t k img st) i = getNodeById st i"
  by (simp add: storeGeneration_def Let_def)

lemma storeGeneration_node:
  "getNodeById (storeGeneration env node t k img st) (node_id node) =
     map_option
       (\<lambda>n. n\<lparr>data := (data n)
               \<lparr>outputImage := Some img, status := Some Complete, error := None,
                imageHistory :=
                  \<lparr>item_id = showNat (dateNow env k), item_timestamp = dateNow env k,
                   item_prompt = t, item_aspectRatio = aspectRatio (data node),
                   item_model = model (data node)\<rparr> # imageHistory (data node),
                selectedHistoryIndex := Some 0\<rparr>\<rparr>)
       (getNodeById st (node_id node))"
  by (simp add: storeGeneration_def Let_def)

lemma storeGeneration_cost:
  "incurredCost (storeGeneration env node t k img st) =
     incurredCost st + calculateGenerationCost env (model (data node)) (resolution (data node))"
  by (simp add: storeGeneration_def Let_def)


lemma execNanoBanana_frame:
  "i \<noteq> node_id node \<Longrightarrow> getNodeById (stepState (execNanoBanana env node st)) i = getNodeById st i"
  unfolding execNanoBanana_def
  by (simp only: Let_def split: if_splits http_outcome.splits option.splits)
     (simp add: failNode_frame storeGeneration_frame)

lemma execLlmGenerate_frame:
  "i \<noteq> node_id node \<Longrightarrow> getNodeById (stepState (execLlmGenerate env node st)) i = getNodeById st i"
  unfolding execLlmGenerate_def
  by (simp only: Let_def split: if_splits http_outcome.splits option.splits)
     (simp add: failNode_frame)

lemma execAnnotation_frame:
  "i \<noteq> node_id node \<Longrightarrow> getNodeById (stepState (execAnnotation node st)) i = getNodeById st i"
  by (simp add: execAnnotation_def Let_def split: option.splits)

lemma execOutput_frame:
  "i \<noteq> node_id node \<Longrightarrow> getNodeById (stepState (execOutput node st)) i = getNodeById st i"
  by (simp add: execOutput_def split: option.splits)

lemma populateChildren_frame:
  "i \<notin> imageInput ` set children \<Longrightarrow>
   getNodeById (populateChildren env splitImages cols index children st) i = getNodeById st i"
  by (induction children arbitrary: index st) (auto simp: Let_def split: option.splits)

lemma execSplitGrid_frame:
  "i \<noteq> node_id node \<Longrightarrow> i \<notin> imageInput ` set (childNodeIds (data node)) \<Longrightarrow>
   getNodeById (stepState (execSplitGrid env node st)) i = getNodeById st i"
  unfolding execSplitGrid_def
  by (simp only: Let_def split: if_splits option.splits sum.splits)
     (simp add: failNode_frame populateChildren_frame)

lemma execNode_frame:
  assumes "\<not> writesTo node i"
  shows "getNodeById (stepState (execNode env node st)) i = getNodeById st i"
proof -
  from assms have ne: "i \<noteq> node_id node" by (auto simp: writesTo_def)
  show ?thesis
  proof (cases "node_type node")
    case SplitGrid
    with assms ne show ?thesis
      by (simp add: execNode_def writesTo_def execSplitGrid_frame)
  qed (use ne in \<open>simp_all add: execNode_def execNanoBanana_frame execLlmGenerate_frame
        execAnnotation_frame execOutput_frame\<close>)
qed

lemma execFrom_frame:
  assumes "\<forall>n\<in>set ns. \<not> nodeGroupLocked (snapGroups ctx) n \<longrightarrow> \<not> writesTo n l"
  shows "getNodeById (execFrom env ctx i ns st) l = getNodeById st l"
  using assms
proof (induction ns arbitrary: i st)
  case Nil
  show ?case by simp
next
  case (Cons node rest)
  define st0 where "st0 = (if stopRequested env i then stopWorkflow st else st)"
  define r where "r = execNode env node (st0\<lparr>currentNodeId := Some (node_id node)\<rparr>)"
  have eq: "execFrom env ctx i (node # rest) st =
     (if \<not> isRunning st0 then finish st0
      else if \<not> isResumingThisNode ctx node
              \<and> find hasPause (incoming (snapEdges ctx) (node_id node)) \<noteq> None
      then pauseAt node st0
      else if nodeGroupLocked (snapGroups ctx) node then execFrom env ctx (Suc i) rest st0
      else (case r of Return st' \<Rightarrow> st' | Continue st' \<Rightarrow> execFrom env ctx (Suc i) rest st'))"
    unfolding st0_def r_def by (simp only: execFrom_Cons Let_def)
  have s0: "getNodeById st0 l = getNodeById st l"
    by (simp add: st0_def)
  have IH: "getNodeById (execFrom env ctx j rest s) l = getNodeById s l" for j s
    using Cons.IH Cons.prems by simp
  have step: "getNodeById (stepState r) l = getNodeById st l"
    if "\<not> nodeGroupLocked (snapGroups ctx) node"
    using that Cons.prems s0 unfolding r_def by (simp add: execNode_frame)
  show ?case
    unfolding eq using s0 IH step
    by (cases r) auto
qed

lemma find_distinct_ids:
  "distinct (map node_id ns) \<Longrightarrow> n \<in> set ns \<Longrightarrow> find (\<lambda>m. node_id m = node_id n) ns = Some n"
  by (induction ns) (auto simp: image_iff)

text \<open>
  Claim C7 (as amended). Let the node ids be distinct and let \<open>L\<close> be a node of a locked
  group that is not an image child of a grid-split node outside locked groups. Then a
  call of \<^verbatim>\<open>executeWorkflow\<close> leaves the stored node \<open>L\<close> as it was, data and all; the
  execution of any node outside locked groups, from any state, leaves \<open>L\<close> as that state
  holds it, so that whatever resolves its inputs during the run reads the output \<open>L\<close>
  had before; and the loop, when it reaches \<open>L\<close> while running and not pausing before
  it, goes on with the next node of the order.
\<close>

theorem locked_node_untouched:
  assumes ids: "distinct (map node_id (nodes st))"
    and L: "L \<in> set (nodes st)" and lk: "nodeGroupLocked (groups st) L"
    and nochild: "\<forall>n\<in>set (nodes st). node_type n = SplitGrid \<longrightarrow> \<not> nodeGroupLocked (groups st) n \<longrightarrow>
                    node_id L \<notin> imageInput ` set (childNodeIds (data n))"
  shows "getNodeById (executeWorkflow env startFrom st) (node_id L) = Some L
       \<and> (\<forall>n\<in>set (nodes st). \<not> nodeGroupLocked (groups st) n \<longrightarrow>
            (\<forall>s. getNodeById (stepState (execNode env n s)) (node_id L) = getNodeById s (node_id L)))
       \<and> (\<forall>ctx i rest s. snapGroups ctx = groups st \<longrightarrow> isRunning s \<longrightarrow> \<not> stopRequested env i \<longrightarrow>
            (isResumingThisNode ctx L \<or> find hasPause (incoming (snapEdges ctx) (node_id L)) = None) \<longrightarrow>
            execFrom env ctx i (L # rest) s = execFrom env ctx (Suc i) rest s)"
proof (intro conjI ballI allI impI)
  have nw: "\<not> writesTo n (node_id L)" if "n \<in> set (nodes st)" "\<not> nodeGroupLocked (groups st) n" for n
  proof -
    from that lk have "n \<noteq> L" by auto
    with ids L that(1) have "node_id n \<noteq> node_id L"
      by (meson distinct_map inj_onD)
    with nochild that show ?thesis by (auto simp: writesTo_def)
  qed
  {
    fix n s assume "n \<in> set (nodes st)" "\<not> nodeGroupLocked (groups st) n"
    then show "getNodeById (stepState (execNode env n s)) (node_id L) = getNodeById s (node_id L)"
      by (intro execNode_frame nw)
  }
  {
    fix ctx :: run_ctx and i rest and s :: "'a store"
    assume "snapGroups ctx = groups st" "isRunning s" "\<not> stopRequested env i"
      "isResumingThisNode ctx L \<or> find hasPause (incoming (snapEdges ctx) (node_id L)) = None"
    with lk show "execFrom env ctx i (L # rest) s = execFrom env ctx (Suc i) rest s"
      by (auto simp: execFrom_Cons Let_def)
  }
  have live: "getNodeById st (node_id L) = Some L"
    using ids L by (simp add: getNodeById_def find_distinct_ids)
  show "getNodeById (executeWorkflow env startFrom st) (node_id L) = Some L"
  proof (cases "isRunning st")
    case True
    with live show ?thesis by (simp add: executeWorkflow_def)
  next
    case False
    show ?thesis
    proof (cases "topoSort (edges st) (nodes st)")
      case (Inl x)
      with False live show ?thesis by (simp add: executeWorkflow_def Let_def)
    next
      case (Inr order)
      from topoSort_Inr(3)[OF Inr] have sub: "set order \<subseteq> set (nodes st)" .
      let ?ctx = "\<lparr>snapEdges = edges st, snapGroups = groups st,
                    isResuming = (case startFrom of None \<Rightarrow> False | Some s \<Rightarrow> pausedAtNodeId st = Some s),
                    startFromNodeId = startFrom\<rparr>"
      let ?i = "startIndex startFrom order"
      have "\<forall>n\<in>set (drop ?i order). \<not> nodeGroupLocked (snapGroups ?ctx) n \<longrightarrow> \<not> writesTo n (node_id L)"
        using sub nw by (auto dest: in_set_dropD)
      from execFrom_frame[OF this, of env ?i "st\<lparr>isRunning := True, pausedAtNodeId := None\<rparr>"]
      show ?thesis using False Inr live by (simp add: executeWorkflow_def Let_def)
    qed
  qed
qed


theorem locked_node_untouched_witness:
  "distinct (map node_id (nodes exLockedStore))
   \<and> exLockedGen \<in> set (nodes exLockedStore)
   \<and> nodeGroupLocked (groups exLockedStore) exLockedGen
   \<and> map node_type (nodes exLockedStore) = [ImageInput, Prompt, NanoBanana, Output]
   \<and> getNodeById (executeWorkflow exEnv None exLockedStore) (node_id exLockedGen) = Some exLockedGen
   \<and> calls (executeWorkflow exEnv None exLockedStore) = []
   \<and> map (nodeImage \<circ> data) (nodes (executeWorkflow exEnv None exLockedStore))
       = [Some ''data:photo'', None, None, Some ''data:old'']"
proof -
  have ids: "distinct (map node_id (nodes exLockedStore))"
    by (simp add: exLockedStore_def initialStore_def exLockedGen_def newNode_def)
  have L: "exLockedGen \<in> set (nodes exLockedStore)"
    by (simp add: exLockedStore_def initialStore_def)
  have lk: "nodeGroupLocked (groups exLockedStore) exLockedGen"
    by (simp add: nodeGroupLocked_def exLockedStore_def initialStore_def exLockedGen_def newNode_def)
  have kinds: "map node_type (nodes exLockedStore) = [ImageInput, Prompt, NanoBanana, Output]"
    by (simp add: exLockedStore_def initialStore_def exLockedGen_def newNode_def)
  from kinds have nochild: "\<forall>n\<in>set (nodes exLockedStore). node_type n = SplitGrid \<longrightarrow>
      \<not> nodeGroupLocked (groups exLockedStore) n \<longrightarrow>
      node_id exLockedGen \<notin> imageInput ` set (childNodeIds (data n))"
    by (simp add: exLockedStore_def initialStore_def exLockedGen_def newNode_def)
  have whole: "calls (executeWorkflow exEnv None exLockedStore) = []
      \<and> map (nodeImage \<circ> data) (nodes (executeWorkflow exEnv None exLockedStore))
          = [Some ''data:photo'', None, None, Some ''data:old'']"
    by code_simp
  from locked_node_untouched[OF ids L lk nochild, of exEnv None] ids L lk kinds whole
  show ?thesis by simp
qed

text \<open>
  The claim as stated fails for a locked image child of a grid split: the split, which is
  not locked, writes its first cell into the child although the child itself is skipped.
\<close>

theorem locked_node_untouched_counterexample:
  "nodeGroupLocked (groups exSplitStore) exSplitChild
   \<and> getNodeById exSplitStore ''imageInput-3'' = Some exSplitChild
   \<and> nodeImage (data exSplitChild) = None
   \<and> map (nodeImage \<circ> data) (nodes (executeWorkflow exEnv None exSplitStore))
       = [Some ''data:photo'', None, Some ''data:cell-a'']
   \<and> map (filename \<circ> data) (nodes (executeWorkflow exEnv None exSplitStore))
       = [None, None, Some ''split-1-1.png'']"
proof -
  have a: "nodeGroupLocked (groups exSplitStore) exSplitChild
      \<and> getNodeById exSplitStore ''imageInput-3'' = Some exSplitChild
      \<and> nodeImage (data exSplitChild) = None"
    by (simp add: nodeGroupLocked_def getNodeById_def exSplitStore_def initialStore_def
        exSplitChild_def newNode_def createDefaultNodeData_def emptyData_def)
  have b: "map (nodeImage \<circ> data) (nodes (executeWorkflow exEnv None exSplitStore))
       = [Some ''data:photo'', None, Some ''data:cell-a'']
   \<and> map (filename \<circ> data) (nodes (executeWorkflow exEnv None exSplitStore))
       = [None, None, Some ''split-1-1.png'']"
    by code_simp
  from a b show ?thesis by simp
qed

section \<open>Carousel history and cost\<close>

lemma execNanoBanana_ContinueE:
  assumes run: "execNanoBanana env node st = Continue st'"
  obtains t img st2 where
    "st' = storeGeneration env node t (length (calls st)) img st2"
    "incurredCost st2 = incurredCost st"
    "getNodeById st2 (node_id node) =
       map_option (\<lambda>n. n\<lparr>data := (data n)
           \<lparr>inputImages := images (getConnectedInputs st (node_id node)),
            inputPrompt := textInput (getConnectedInputs st (node_id node)),
            status := Some Loading, error := None\<rparr>\<rparr>) (getNodeById st (node_id node))"
proof -
  define inp where "inp = getConnectedInputs st (node_id node)"
  define st1 where "st1 = updateNodeData (node_id node)
                    (\<lambda>d. d\<lparr>inputImages := images inp, inputPrompt := textInput inp,
                            status := Some Loading, error := None\<rparr>) st"
  define req where "req =
              \<lparr>req_images = images inp, req_prompt = orElse (textInput inp) [],
               req_aspectRatio = aspectRatio (data node), req_resolution = resolution (data node),
               req_model = model (data node), req_useGoogleSearch = useGoogleSearch (data node)\<rparr>"
  define st2 where "st2 = st1\<lparr>calls := calls st1 @ [GenerateCall req]\<rparr>"
  have eq: "execNanoBanana env node st =
     (if images inp = [] \<or> \<not> truthy (textInput inp) then
        failNode (node_id node) ''Missing image or text input'' st
      else
        case generateApi env (length (calls st1)) req of
             Throws t \<Rightarrow> failNode (node_id node) (generateThrownMessage t) st2
           | NotOk f \<Rightarrow>
               failNode (node_id node)
                 (httpErrorMessage
                    (''HTTP '' @ showNat (http_status f) @ '': '' @ http_statusText f) f) st2
           | OkJson result \<Rightarrow>
               if gen_success result \<and> truthy (gen_image result) then
                 Continue (storeGeneration env node (orElse (textInput inp) []) (length (calls st1))
                             (orElse (gen_image result) []) st2)
               else failNode (node_id node) (orElse (gen_error result) ''Generation failed'') st2)"
    unfolding execNanoBanana_def inp_def st1_def req_def st2_def Let_def by (rule refl)
  have k: "length (calls st1) = length (calls st)" by (simp add: st1_def)
  have c: "incurredCost st2 = incurredCost st" by (simp add: st2_def st1_def)
  have n: "getNodeById st2 (node_id node) =
       map_option (\<lambda>n. n\<lparr>data := (data n)
           \<lparr>inputImages := images (getConnectedInputs st (node_id node)),
            inputPrompt := textInput (getConnectedInputs st (node_id node)),
            status := Some Loading, error := None\<rparr>\<rparr>) (getNodeById st (node_id node))"
    by (simp add: st2_def st1_def inp_def)
  from run have ok: "\<not> (images inp = [] \<or> \<not> truthy (textInput inp))"
    unfolding eq by (auto simp: failNode_def split: if_splits)
  show thesis
  proof (cases "generateApi env (length (calls st1)) req")
    case (Throws t)
    with run ok show ?thesis unfolding eq by (simp add: failNode_def)
  next
    case (NotOk f)
    with run ok show ?thesis unfolding eq by (simp add: failNode_def)
  next
    case (OkJson result)
    with run ok have st': "st' = storeGeneration env node (orElse (textInput inp) [])
        (length (calls st1)) (orElse (gen_image result) []) st2"
      unfolding eq by (simp add: failNode_def split: if_splits)
    show ?thesis
      by (rule that[OF st'[unfolded k] c n])
  qed
qed

lemma execNanoBanana_success:
  assumes live: "getNodeById st (node_id node) = Some node"
    and run: "execNanoBanana env node st = Continue st'"
  shows "\<exists>node' a. getNodeById st' (node_id node) = Some node'
           \<and> node_id node' = node_id node \<and> node_type node' = node_type node
           \<and> imageHistory (data node') = a # imageHistory (data node)
           \<and> item_timestamp a = dateNow env (length (calls st))
           \<and> selectedHistoryIndex (data node') = Some 0
           \<and> model (data node') = model (data node)
           \<and> resolution (data node') = resolution (data node)
           \<and> incurredCost st' =
               incurredCost st + calculateGenerationCost env (model (data node)) (resolution (data node))"
proof -
  from run obtain t img st2 where
    st': "st' = storeGeneration env node t (length (calls st)) img st2"
    and c: "incurredCost st2 = incurredCost st"
    and n2: "getNodeById st2 (node_id node) =
       map_option (\<lambda>n. n\<lparr>data := (data n)
           \<lparr>inputImages := images (getConnectedInputs st (node_id node)),
            inputPrompt := textInput (getConnectedInputs st (node_id node)),
            status := Some Loading, error := None\<rparr>\<rparr>) (getNodeById st (node_id node))"
    by (rule execNanoBanana_ContinueE)
  define a where "a = \<lparr>item_id = showNat (dateNow env (length (calls st))),
      item_timestamp = dateNow env (length (calls st)), item_prompt = t,
      item_aspectRatio = aspectRatio (data node), item_model = model (data node)\<rparr>"
  define d where "d = (data node)
           \<lparr>inputImages := images (getConnectedInputs st (node_id node)),
            inputPrompt := textInput (getConnectedInputs st (node_id node)),
            status := Some Loading, error := None,
            outputImage := Some img, status := Some Complete, error := None,
            imageHistory := a # imageHistory (data node),
            selectedHistoryIndex := Some 0\<rparr>"
  have g: "getNodeById st' (node_id node) = Some (node\<lparr>data := d\<rparr>)"
    unfolding st' storeGeneration_node n2 live d_def a_def by simp
  have cost: "incurredCost st' =
      incurredCost st + calculateGenerationCost env (model (data node)) (resolution (data node))"
    unfolding st' storeGeneration_cost c by (rule refl)
  have "node_id (node\<lparr>data := d\<rparr>) = node_id node"
    "node_type (node\<lparr>data := d\<rparr>) = node_type node"
    "imageHistory (data (node\<lparr>data := d\<rparr>)) = a # imageHistory (data node)"
    "item_timestamp a = dateNow env (length (calls st))"
    "selectedHistoryIndex (data (node\<lparr>data := d\<rparr>)) = Some 0"
    "model (data (node\<lparr>data := d\<rparr>)) = model (data node)"
    "resolution (data (node\<lparr>data := d\<rparr>)) = resolution (data node)"
    by (simp_all add: d_def a_def)
  with g cost show ?thesis by blast
qed


text \<open>
  Claim C8. Take an image-generate node as the store holds it and let the executor run it
  with success. The stored node then has one more history item, at the head, and
  \<open>selectedHistoryIndex = 0\<close>, and the incurred cost has grown by the price of the node's
  model and resolution. Let it run with success again, on the node as the store now
  holds it and with no other cost accrued in between: the history begins with the item
  of the second run, then that of the first, the index is 0, and the cost is the
  starting cost plus the two prices.
\<close>

theorem two_generations_history_cost:
  assumes kind: "node_type node = NanoBanana"
    and live: "getNodeById st (node_id node) = Some node"
    and run1: "execNode env node st = Continue st1"
    and after1: "getNodeById st1 (node_id node) = Some node1"
    and between: "getNodeById s1 (node_id node) = Some node1" "incurredCost s1 = incurredCost st1"
    and run2: "execNode env node1 s1 = Continue st2"
    and after2: "getNodeById st2 (node_id node) = Some node2"
  shows "\<exists>a b. imageHistory (data node1) = a # imageHistory (data node)
           \<and> imageHistory (data node2) = b # a # imageHistory (data node)
           \<and> item_timestamp a = dateNow env (length (calls st))
           \<and> item_timestamp b = dateNow env (length (calls s1))
           \<and> selectedHistoryIndex (data node1) = Some 0
           \<and> selectedHistoryIndex (data node2) = Some 0
           \<and> incurredCost st1 =
               incurredCost st + calculateGenerationCost env (model (data node)) (resolution (data node))
           \<and> incurredCost st2 =
               incurredCost st + calculateGenerationCost env (model (data node)) (resolution (data node))
                 + calculateGenerationCost env (model (data node)) (resolution (data node))"
proof -
  from run1 kind have r1: "execNanoBanana env node st = Continue st1"
    by (simp add: execNode_def)
  from execNanoBanana_success[OF live r1] after1
  obtain a where n1: "node_id node1 = node_id node" "node_type node1 = node_type node"
    and h1: "imageHistory (data node1) = a # imageHistory (data node)"
    and t1: "item_timestamp a = dateNow env (length (calls st))"
    and i1: "selectedHistoryIndex (data node1) = Some 0"
    and m1: "model (data node1) = model (data node)" "resolution (data node1) = resolution (data node)"
    and c1: "incurredCost st1 =
        incurredCost st + calculateGenerationCost env (model (data node)) (resolution (data node))"
    by auto
  from run2 kind n1 have r2: "execNanoBanana env node1 s1 = Continue st2"
    by (simp add: execNode_def)
  from between(1) n1 have live1: "getNodeById s1 (node_id node1) = Some node1" by simp
  from execNanoBanana_success[OF live1 r2] after2 n1
  obtain b where h2: "imageHistory (data node2) = b # imageHistory (data node1)"
    and t2: "item_timestamp b = dateNow env (length (calls s1))"
    and i2: "selectedHistoryIndex (data node2) = Some 0"
    and c2: "incurredCost st2 =
        incurredCost s1 + calculateGenerationCost env (model (data node1)) (resolution (data node1))"
    by auto
  from h1 h2 t1 t2 i1 i2 c1 c2 m1 between(2) show ?thesis by simp
qed

theorem two_generations_history_cost_witness:
  "node_type exPauseGen = NanoBanana
   \<and> getNodeById exGenStore (node_id exPauseGen) = Some exPauseGen
   \<and> imageHistory (data exPauseGen) = []
   \<and> execNode exEnv exPauseGen exGenStore = Continue exGenStore1
   \<and> execNode exEnv exGenNode1 exGenStore1 = Continue exGenStore2
   \<and> map item_timestamp (imageHistory (data exGenNode1)) = [1000]
   \<and> map item_timestamp (imageHistory (data exGenNode2)) = [1001, 1000]
   \<and> selectedHistoryIndex (data exGenNode2) = Some 0
   \<and> calculateGenerationCost exEnv (model (data exPauseGen)) (resolution (data exPauseGen)) = 134
   \<and> incurredCost exGenStore2 = 0 + 134 + 134"
proof -
  have kind: "node_type exPauseGen = NanoBanana"
    by (simp add: exPauseGen_def newNode_def)
  have live: "getNodeById exGenStore (node_id exPauseGen) = Some exPauseGen"
    by (simp add: getNodeById_def exGenStore_def initialStore_def exPauseGen_def newNode_def)
  have empty: "imageHistory (data exPauseGen) = []"
    by (simp add: exPauseGen_def newNode_def createDefaultNodeData_def emptyData_def)
  have "case execNode exEnv exPauseGen exGenStore of Continue s \<Rightarrow> True | Return s \<Rightarrow> False"
    by code_simp
  then have run1: "execNode exEnv exPauseGen exGenStore = Continue exGenStore1"
    by (cases "execNode exEnv exPauseGen exGenStore") (simp_all add: exGenStore1_def)
  have "case getNodeById exGenStore1 ''nanoBanana-3'' of Some n \<Rightarrow> True | None \<Rightarrow> False"
    by code_simp
  then have after1: "getNodeById exGenStore1 (node_id exPauseGen) = Some exGenNode1"
    by (cases "getNodeById exGenStore1 ''nanoBanana-3''")
       (simp_all add: exGenNode1_def exPauseGen_def newNode_def)
  have "case execNode exEnv exGenNode1 exGenStore1 of Continue s \<Rightarrow> True | Return s \<Rightarrow> False"
    by code_simp
  then have run2: "execNode exEnv exGenNode1 exGenStore1 = Continue exGenStore2"
    by (cases "execNode exEnv exGenNode1 exGenStore1") (simp_all add: exGenStore2_def)
  have "case getNodeById exGenStore2 ''nanoBanana-3'' of Some n \<Rightarrow> True | None \<Rightarrow> False"
    by code_simp
  then have after2: "getNodeById exGenStore2 (node_id exPauseGen) = Some exGenNode2"
    by (cases "getNodeById exGenStore2 ''nanoBanana-3''")
       (simp_all add: exGenNode2_def exPauseGen_def newNode_def)
  have price: "calculateGenerationCost exEnv (model (data exPauseGen)) (resolution (data exPauseGen)) = 134"
    by (simp add: exEnv_def exPauseGen_def newNode_def createDefaultNodeData_def emptyData_def)
  have start: "incurredCost exGenStore = 0" "length (calls exGenStore) = 0"
    by (simp_all add: exGenStore_def initialStore_def)
  have k1: "length (calls exGenStore1) = 1"
    by code_simp
  have clock: "dateNow exEnv 0 = 1000" "dateNow exEnv 1 = 1001"
    by (simp_all add: exEnv_def)
  from two_generations_history_cost[OF kind live run1 after1 after1 refl run2 after2]
  obtain a b where "imageHistory (data exGenNode1) = a # imageHistory (data exPauseGen)"
    "imageHistory (data exGenNode2) = b # a # imageHistory (data exPauseGen)"
    "item_timestamp a = dateNow exEnv (length (calls exGenStore))"
    "item_timestamp b = dateNow exEnv (length (calls exGenStore1))"
    "selectedHistoryIndex (data exGenNode2) = Some 0"
    "incurredCost exGenStore2 =
       incurredCost exGenStore
         + calculateGenerationCost exEnv (model (data exPauseGen)) (resolution (data exPauseGen))
         + calculateGenerationCost exEnv (model (data exPauseGen)) (resolution (data exPauseGen))"
    by blast
  with kind live empty run1 run2 price start k1 clock show ?thesis by simp
qed

end
